theory Spec2Isabelle
  imports Main "HOL-Library.AList" "HOL-Library.Word"
begin

section \<open>Python text primitives\<close>

text \<open>
  The scripts read a file as text and work on Python \<open>str\<close> values. A text is modelled
  as a \<open>string\<close> (a list of \<open>char\<close>), one \<open>char\<close> per code point below 256.
\<close>

definition whitespace :: "char list" where
  \<comment> \<open>the code points below 256 for which \<open>str.isspace\<close> holds; the regex class
      \<open>\s\<close> of a \<open>str\<close> pattern is the same set\<close>
  "whitespace = [CHR 0x09, CHR 0x0A, CHR 0x0B, CHR 0x0C, CHR 0x0D, CHR 0x1C, CHR 0x1D,
                 CHR 0x1E, CHR 0x1F, CHR 0x20, CHR 0x85, CHR 0xA0]"

definition isspace :: "char \<Rightarrow> bool" where
  "isspace c = (c \<in> set whitespace)"

definition strip :: "string \<Rightarrow> string" where
  \<comment> \<open>\<open>s.strip()\<close>\<close>
  "strip s = rev (dropWhile isspace (rev (dropWhile isspace s)))"

definition startswith :: "string \<Rightarrow> string \<Rightarrow> bool" where
  \<comment> \<open>\<open>s.startswith(p)\<close>\<close>
  "startswith s p = (take (length p) s = p)"

fun contains :: "string \<Rightarrow> string \<Rightarrow> bool" where
  \<comment> \<open>\<open>p in s\<close>\<close>
  "contains p [] = (p = [])"
| "contains p (x # s) = (startswith (x # s) p \<or> contains p s)"

function str_replace :: "string \<Rightarrow> string \<Rightarrow> string \<Rightarrow> string" where
  \<comment> \<open>\<open>s.replace(old, new)\<close>: every non-overlapping occurrence, from the left; an empty
      \<open>old\<close> matches before every character and at the end\<close>
  "str_replace old new [] = (if old = [] then new else [])"
| "str_replace old new (c # s) =
     (if old = [] then new @ concat (map (\<lambda>x. x # new) (c # s))
      else if startswith (c # s) old then new @ str_replace old new (drop (length old) (c # s))
      else c # str_replace old new s)"
  by pat_completeness auto
termination
  by (relation "measure (\<lambda>(old, new, s). length s)") auto

section \<open>The fragment of Python's \<open>re\<close> that the scripts use\<close>

text \<open>
  Every pattern of the scripts is a sequence of single characters and character classes,
  each optionally repeated (\<open>*\<close>, \<open>+\<close> greedy, \<open>*?\<close> lazy), with capturing groups around
  subsequences, the anchor \<open>^\<close> (under \<open>re.MULTILINE\<close>) and the assertion \<open>\b\<close>. No pattern
  has an alternation or a repeated group. A pattern is therefore a list of items, and
  \<open>x+\<close> is the two items \<open>x\<close>, \<open>x*\<close>.
\<close>

datatype cclass =
    Lit char    \<comment> \<open>a literal character\<close>
  | Space       \<comment> \<open>\<open>\s\<close>\<close>
  | Dot         \<comment> \<open>\<open>.\<close> under \<open>re.DOTALL\<close>: any character\<close>
  | Not char    \<comment> \<open>\<open>[^c]\<close>: any character but \<open>c\<close>, newline included\<close>

fun in_class :: "cclass \<Rightarrow> char \<Rightarrow> bool" where
  "in_class (Lit c) x = (x = c)"
| "in_class Space x = isspace x"
| "in_class Dot x = True"
| "in_class (Not c) x = (x \<noteq> c)"

datatype item =
    One cclass     \<comment> \<open>exactly one character of the class\<close>
  | Star cclass    \<comment> \<open>\<open>c*\<close>, greedy\<close>
  | Lazy cclass    \<comment> \<open>\<open>c*?\<close>, lazy\<close>
  | Open nat       \<comment> \<open>\<open>(\<close> of group \<open>g\<close>\<close>
  | Close nat      \<comment> \<open>\<open>)\<close> of group \<open>g\<close>\<close>
  | Bol            \<comment> \<open>\<open>^\<close> under \<open>re.MULTILINE\<close>\<close>
  | WordB          \<comment> \<open>\<open>\b\<close>\<close>

datatype mark = Start nat | End nat

definition is_word :: "char \<Rightarrow> bool" where
  \<comment> \<open>\<open>\w\<close> of a \<open>str\<close> pattern, on the code points below 256: alphanumeric or underscore\<close>
  "is_word c = (let n = (of_char c :: nat) in
      (48 \<le> n \<and> n \<le> 57) \<or> (65 \<le> n \<and> n \<le> 90) \<or> n = 95 \<or> (97 \<le> n \<and> n \<le> 122) \<or>
      n = 170 \<or> n = 178 \<or> n = 179 \<or> n = 181 \<or> n = 185 \<or> n = 186 \<or>
      (188 \<le> n \<and> n \<le> 190) \<or> (192 \<le> n \<and> n \<le> 214) \<or> (216 \<le> n \<and> n \<le> 246) \<or> 248 \<le> n)"

definition at_boundary :: "char option \<Rightarrow> string \<Rightarrow> bool" where
  \<comment> \<open>\<open>\b\<close>: exactly one of the characters before and after the position is a word character\<close>
  "at_boundary prev s =
     ((case prev of None \<Rightarrow> False | Some c \<Rightarrow> is_word c) \<noteq>
      (case s of [] \<Rightarrow> False | x # _ \<Rightarrow> is_word x))"

text \<open>
  \<open>mt\<close> is the backtracking matcher: \<open>mt items prev s n ms\<close> matches the items at the
  head of the remaining text \<open>s\<close>, where \<open>prev\<close> is the character before it, \<open>n\<close> the number
  of characters matched so far and \<open>ms\<close> the group marks set so far. It returns the first
  match in backtracking order (a greedy repetition tries the longest run first, a lazy one
  the shortest), as the end position and the marks, or \<open>None\<close>.
\<close>

fun mt :: "item list \<Rightarrow> char option \<Rightarrow> string \<Rightarrow> nat \<Rightarrow> (mark \<times> nat) list
             \<Rightarrow> (nat \<times> (mark \<times> nat) list) option" where
  "mt [] prev s n ms = Some (n, ms)"
| "mt (One c # k) prev [] n ms = None"
| "mt (One c # k) prev (x # s) n ms =
     (if in_class c x then mt k (Some x) s (Suc n) ms else None)"
| "mt (Star c # k) prev [] n ms = mt k prev [] n ms"
| "mt (Star c # k) prev (x # s) n ms =
     (if in_class c x
      then (case mt (Star c # k) (Some x) s (Suc n) ms of
              Some r \<Rightarrow> Some r
            | None \<Rightarrow> mt k prev (x # s) n ms)
      else mt k prev (x # s) n ms)"
| "mt (Lazy c # k) prev [] n ms = mt k prev [] n ms"
| "mt (Lazy c # k) prev (x # s) n ms =
     (case mt k prev (x # s) n ms of
        Some r \<Rightarrow> Some r
      | None \<Rightarrow> if in_class c x then mt (Lazy c # k) (Some x) s (Suc n) ms else None)"
| "mt (Open g # k) prev s n ms = mt k prev s n ((Start g, n) # ms)"
| "mt (Close g # k) prev s n ms = mt k prev s n ((End g, n) # ms)"
| "mt (Bol # k) prev s n ms =
     (if prev = None \<or> prev = Some CHR 0x0A then mt k prev s n ms else None)"
| "mt (WordB # k) prev s n ms =
     (if at_boundary prev s then mt k prev s n ms else None)"

definition grp :: "string \<Rightarrow> nat \<Rightarrow> (mark \<times> nat) list \<Rightarrow> nat \<Rightarrow> string" where
  \<comment> \<open>\<open>match.group(g)\<close> of a match of length \<open>e\<close> at the head of \<open>txt\<close>\<close>
  "grp txt e ms g =
     (if g = 0 then take e txt
      else case (map_of ms (Start g), map_of ms (End g)) of
             (Some a, Some b) \<Rightarrow> take (b - a) (drop a txt)
           | _ \<Rightarrow> [])"

text \<open>
  \<open>re.sub(pattern, repl, text)\<close>: the text is scanned from the left; at the leftmost
  position where the pattern matches, the match is replaced by \<open>repl\<close> applied to its
  groups and the scan goes on after the match. Every pattern of the scripts holds at least
  one \<open>One\<close> item and so never matches the empty string; the scan treats an empty match as
  no match.
\<close>

function sub_scan :: "item list \<Rightarrow> ((nat \<Rightarrow> string) \<Rightarrow> string) \<Rightarrow> char option \<Rightarrow> string
                        \<Rightarrow> string" where
  "sub_scan re repl prev [] = []"
| "sub_scan re repl prev (x # s) =
     (case mt re prev (x # s) 0 [] of
        None \<Rightarrow> x # sub_scan re repl (Some x) s
      | Some (e, ms) \<Rightarrow>
          if 0 < e
          then repl (grp (x # s) e ms) @
               sub_scan re repl (Some (last (take e (x # s)))) (drop e (x # s))
          else x # sub_scan re repl (Some x) s)"
  by pat_completeness auto
termination
  by (relation "measure (\<lambda>(re, repl, prev, s). length s)") auto

definition re_sub :: "item list \<Rightarrow> ((nat \<Rightarrow> string) \<Rightarrow> string) \<Rightarrow> string \<Rightarrow> string" where
  "re_sub re repl text = sub_scan re repl None text"

definition lit :: "string \<Rightarrow> item list" where
  \<comment> \<open>a run of literal characters of a pattern\<close>
  "lit s = map (\<lambda>c. One (Lit c)) s"

definition rep1 :: "cclass \<Rightarrow> item list" where
  \<comment> \<open>\<open>c+\<close>\<close>
  "rep1 c = [One c, Star c]"

definition group :: "nat \<Rightarrow> item list \<Rightarrow> item list" where
  \<comment> \<open>\<open>( ... )\<close> as group \<open>g\<close>\<close>
  "group g its = Open g # its @ [Close g]"

section \<open>Files\<close>

text \<open>
  The scripts run in the repository's root and name their files by relative path. The
  world is the list of the regular files there, each path once with its text (as Python's
  text mode delivers it), together with the log of the paths opened for writing so far.
  What a script prints is not modelled.
\<close>

datatype error = FileNotFoundError string

record world =
  files :: "(string \<times> string) list"
  opened_w :: "string list"

definition read_text :: "world \<Rightarrow> string \<Rightarrow> error + string" where
  \<comment> \<open>\<open>open(path, 'r')\<close> and \<open>f.read()\<close>\<close>
  "read_text w path =
     (case map_of (files w) path of None \<Rightarrow> Inl (FileNotFoundError path) | Some c \<Rightarrow> Inr c)"

definition write_text :: "string \<Rightarrow> string \<Rightarrow> world \<Rightarrow> world" where
  \<comment> \<open>\<open>open(path, 'w')\<close> and \<open>f.write(content)\<close>\<close>
  "write_text path content w =
     w\<lparr>files := AList.update path content (files w), opened_w := opened_w w @ [path]\<rparr>"

definition rewrite :: "string \<Rightarrow> (string \<Rightarrow> string) \<Rightarrow> world \<Rightarrow> world \<times> error option" where
  \<comment> \<open>the frame every script has: read the file, transform the text, write it back. The
      result is the world the run leaves and the exception that ended it, if any; a
      missing file raises before anything is written\<close>
  "rewrite path f w =
     (case read_text w path of
        Inl e \<Rightarrow> (w, Some e)
      | Inr content \<Rightarrow> (write_text path (f content) w, None))"

definition writes_header ::
    "string \<Rightarrow> (world \<Rightarrow> world \<times> error option) \<Rightarrow> world \<Rightarrow> bool" where
  \<comment> \<open>what a run of the script \<open>s\<close> in the world \<open>w\<close> does to the files when \<open>s\<close> rewrites
      the header \<open>p\<close> and nothing else: without the header it raises and leaves the world
      as it was; with it, it ends without an exception, opens \<open>p\<close> and no other file for
      writing, creates and deletes no file and changes the text of no file but \<open>p\<close>\<close>
  "writes_header p s w \<longleftrightarrow>
     (p \<notin> fst ` set (files w) \<and> s w = (w, Some (FileNotFoundError p))) \<or>
     (p \<in> fst ` set (files w) \<and> snd (s w) = None \<and>
      opened_w (fst (s w)) = opened_w w @ [p] \<and>
      fst ` set (files (fst (s w))) = fst ` set (files w) \<and>
      (\<forall>q. q \<noteq> p \<longrightarrow> map_of (files (fst (s w))) q = map_of (files w) q))"

definition raft_hpp :: string where
  "raft_hpp = ''include/raft/raft.hpp''"

definition coap_transport_impl_hpp :: string where
  "coap_transport_impl_hpp = ''include/raft/coap_transport_impl.hpp''"

section \<open>fix\_all\_raft\_methods.py\<close>

definition raft_methods_pattern :: "item list" where
  \<comment> \<open>\<^verbatim>\<open>template<([^>]+)>\s*requires[^{]*?auto\s+node<([^>]+)>::([^(]+)\(\<close>\<close>
  "raft_methods_pattern =
     lit ''template<'' @ group 1 (rep1 (Not CHR ''>'')) @ lit ''>'' @ [Star Space] @
     lit ''requires'' @ [Lazy (Not CHR ''{'')] @ lit ''auto'' @ rep1 Space @
     lit ''node<'' @ group 2 (rep1 (Not CHR ''>'')) @ lit ''>::'' @
     group 3 (rep1 (Not CHR ''('')) @ lit ''(''"

definition fix_template_and_node :: "(nat \<Rightarrow> string) \<Rightarrow> string" where
  "fix_template_and_node m =
     (let template_params = strip (m 1);
          node_params = strip (m 2);
          full_match = m 0
      in if contains ''FutureType'' template_params then full_match
         else
           let new_template_params = ''typename FutureType,\<newline>    '' @ template_params;
               new_node_params = ''FutureType, '' @ node_params;
               result = str_replace (''template<'' @ template_params @ ''>'')
                          (''template<\<newline>    '' @ new_template_params @ ''\<newline>>'') full_match;
               result = str_replace (''node<'' @ node_params @ ''>'')
                          (''node<'' @ new_node_params @ ''>'') result
           in result)"

definition fix_all_raft_methods_text :: "string \<Rightarrow> string" where
  \<comment> \<open>the \<open>re.sub\<close> of the script, from the text read to the text written\<close>
  "fix_all_raft_methods_text content = re_sub raft_methods_pattern fix_template_and_node content"

definition fix_all_raft_methods :: "world \<Rightarrow> world \<times> error option" where
  "fix_all_raft_methods = rewrite raft_hpp fix_all_raft_methods_text"

section \<open>fix\_raft\_method\_templates.py\<close>

text \<open>
  The script's first pattern and \<open>add_future_type\<close> are never used; only
  \<open>method_pattern\<close> and \<open>fix_method_template\<close> run.
\<close>

definition method_pattern :: "item list" where
  \<comment> \<open>\<^verbatim>\<open>template<([^>]+)>\s*requires[^{]*?auto\s+node<([^>]+)>::([^(]+)\([^)]*\)[^{]*?{\<close>\<close>
  "method_pattern =
     lit ''template<'' @ group 1 (rep1 (Not CHR ''>'')) @ lit ''>'' @ [Star Space] @
     lit ''requires'' @ [Lazy (Not CHR ''{'')] @ lit ''auto'' @ rep1 Space @
     lit ''node<'' @ group 2 (rep1 (Not CHR ''>'')) @ lit ''>::'' @
     group 3 (rep1 (Not CHR ''('')) @ lit ''('' @ [Star (Not CHR '')'')] @ lit '')'' @
     [Lazy (Not CHR ''{'')] @ lit ''{''"

definition fix_method_template :: "(nat \<Rightarrow> string) \<Rightarrow> string" where
  "fix_method_template m =
     (let template_params = strip (m 1);
          full_match = m 0
      in if contains ''FutureType'' template_params then full_match
         else if contains ''kythira::network_client'' full_match \<or>
                 contains ''kythira::network_server'' full_match
         then
           let new_template_params =
                 (if template_params \<noteq> [] then ''typename FutureType,\<newline>    '' @ template_params
                  else ''typename FutureType'')
           in str_replace (''template<'' @ template_params @ ''>'')
                (''template<\<newline>    '' @ new_template_params @ ''\<newline>>'') full_match
         else full_match)"

definition fix_raft_method_templates_text :: "string \<Rightarrow> string" where
  "fix_raft_method_templates_text content = re_sub method_pattern fix_method_template content"

definition fix_raft_method_templates :: "world \<Rightarrow> world \<times> error option" where
  "fix_raft_method_templates = rewrite raft_hpp fix_raft_method_templates_text"

section \<open>fix\_raft\_comprehensive.py\<close>

definition requires_head :: "item list" where
  \<comment> \<open>\<^verbatim>\<open>(requires\s*\n\s+)\<close>\<close>
  "requires_head = group 1 (lit ''requires'' @ [Star Space] @ lit ''\<newline>'' @ rep1 Space)"

definition spaces_head :: "item list" where
  \<comment> \<open>\<^verbatim>\<open>(\s+)\<close>\<close>
  "spaces_head = group 1 (rep1 Space)"

definition fix_raft_comprehensive_text :: "string \<Rightarrow> string" where
  "fix_raft_comprehensive_text content =
     (let content = re_sub (lit ''raft::raft::'') (\<lambda>m. ''raft::'') content;
          content = re_sub
            (lit ''auto node<'' @
             group 1 (lit ''NetworkClient, NetworkServer, PersistenceEngine, Logger, Metrics, MembershipManager, NodeId, TermId, LogIndex'') @
             lit ''>::'')
            (\<lambda>m. ''auto node<FutureType, '' @ m 1 @ ''>::'') content;
          content = re_sub
            (requires_head @ lit ''network_client<NetworkClient>'' @ [Star Space] @ lit ''&&'')
            (\<lambda>m. m 1 @ ''kythira::network_client<NetworkClient, FutureType> &&'') content;
          content = re_sub
            (requires_head @ lit ''network_server<NetworkServer>'' @ [Star Space] @ lit ''&&'')
            (\<lambda>m. m 1 @ ''kythira::network_server<NetworkServer, FutureType> &&'') content;
          content = re_sub
            (spaces_head @ lit ''persistence_engine<PersistenceEngine,'')
            (\<lambda>m. m 1 @ ''raft::persistence_engine<PersistenceEngine,'') content
      in content)"

definition fix_raft_comprehensive :: "world \<Rightarrow> world \<times> error option" where
  "fix_raft_comprehensive = rewrite raft_hpp fix_raft_comprehensive_text"

section \<open>fix\_raft\_template\_issues.py\<close>

definition fix_raft_template_issues_text :: "string \<Rightarrow> string" where
  "fix_raft_template_issues_text content =
     (let content = re_sub
            (spaces_head @ lit ''network_client<NetworkClient>'' @ [Star Space] @ lit ''&&'')
            (\<lambda>m. m 1 @ ''kythira::network_client<NetworkClient, FutureType> &&'') content;
          content = re_sub
            (spaces_head @ lit ''network_server<NetworkServer>'' @ [Star Space] @ lit ''&&'')
            (\<lambda>m. m 1 @ ''kythira::network_server<NetworkServer, FutureType> &&'') content;
          content = re_sub
            (spaces_head @ lit ''persistence_engine<PersistenceEngine,'')
            (\<lambda>m. m 1 @ ''raft::persistence_engine<PersistenceEngine,'') content;
          content = re_sub (lit ''log_entry<TermId, LogIndex>'')
            (\<lambda>m. ''raft::log_entry<TermId, LogIndex>'') content;
          content = re_sub (lit ''snapshot<NodeId, TermId, LogIndex>'')
            (\<lambda>m. ''raft::snapshot<NodeId, TermId, LogIndex>'') content;
          content = re_sub
            (spaces_head @ lit ''network_client<NetworkClient, FutureType>'')
            (\<lambda>m. m 1 @ ''kythira::network_client<NetworkClient, FutureType>'') content;
          content = re_sub
            (spaces_head @ lit ''network_server<NetworkServer, FutureType>'')
            (\<lambda>m. m 1 @ ''kythira::network_server<NetworkServer, FutureType>'') content;
          content = re_sub (lit ''raft::network_server<NetworkServer>'')
            (\<lambda>m. ''kythira::network_server<NetworkServer, FutureType>'') content
      in content)"

definition fix_raft_template_issues :: "world \<Rightarrow> world \<times> error option" where
  "fix_raft_template_issues = rewrite raft_hpp fix_raft_template_issues_text"

section \<open>fix\_raft\_namespaces.py\<close>

definition indent_head :: "item list" where
  \<comment> \<open>\<^verbatim>\<open>^(\s+)\<close> under \<open>re.MULTILINE\<close>\<close>
  "indent_head = Bol # group 1 (rep1 Space)"

definition fix_raft_namespaces_text :: "string \<Rightarrow> string" where
  "fix_raft_namespaces_text content =
     (let content = re_sub
            (indent_head @ lit ''persistence_engine<'' @ group 2 (rep1 (Not CHR ''>'')) @
             lit '', log_entry<'' @ group 3 (rep1 (Not CHR ''>'')) @
             lit ''>, snapshot<'' @ group 4 (rep1 (Not CHR ''>'')) @ lit ''>>'')
            (\<lambda>m. m 1 @ ''raft::persistence_engine<'' @ m 2 @ '', raft::log_entry<'' @ m 3 @
                  ''>, raft::snapshot<'' @ m 4 @ ''>>'') content;
          content = re_sub (indent_head @ lit ''diagnostic_logger<'')
            (\<lambda>m. m 1 @ ''raft::diagnostic_logger<'') content;
          content = re_sub (indent_head @ lit ''metrics<'')
            (\<lambda>m. m 1 @ ''raft::metrics<'') content;
          content = re_sub
            (indent_head @ lit ''membership_manager<'' @ group 2 (rep1 (Not CHR ''>'')) @
             lit '', cluster_configuration<'' @ group 3 (rep1 (Not CHR ''>'')) @ lit ''>>'')
            (\<lambda>m. m 1 @ ''raft::membership_manager<'' @ m 2 @ '', raft::cluster_configuration<'' @
                  m 3 @ ''>>'') content;
          content = re_sub (indent_head @ lit ''node_id<'')
            (\<lambda>m. m 1 @ ''raft::node_id<'') content;
          content = re_sub (indent_head @ lit ''term_id<'')
            (\<lambda>m. m 1 @ ''raft::term_id<'') content;
          content = re_sub (indent_head @ lit ''log_index<'')
            (\<lambda>m. m 1 @ ''raft::log_index<'') content
      in content)"

definition fix_raft_namespaces :: "world \<Rightarrow> world \<times> error option" where
  "fix_raft_namespaces = rewrite raft_hpp fix_raft_namespaces_text"

section \<open>fix\_raft\_complete.py\<close>

definition fix_raft_complete_text :: "string \<Rightarrow> string" where
  "fix_raft_complete_text content =
     (let content = re_sub (lit ''raft::raft::'') (\<lambda>m. ''raft::'') content;
          content = re_sub
            (group 1 (lit ''template<'' @ [Star Space] @ lit ''\<newline>'' @ [Star Space]) @
             lit ''typename NetworkClient,'')
            (\<lambda>m. m 1 @ ''typename FutureType,\<newline>    typename NetworkClient,'') content;
          content = re_sub
            (requires_head @ lit ''kythira::network_client<NetworkClient>'' @ [Star Space] @
             lit ''&&'')
            (\<lambda>m. m 1 @ ''kythira::network_client<NetworkClient, FutureType> &&'') content;
          content = re_sub
            (requires_head @ lit ''kythira::network_server<NetworkServer>'' @ [Star Space] @
             lit ''&&'')
            (\<lambda>m. m 1 @ ''kythira::network_server<NetworkServer, FutureType> &&'') content;
          content = re_sub (lit ''auto node<FutureType, FutureType,'')
            (\<lambda>m. ''auto node<FutureType,'') content;
          content = re_sub (lit ''server_state::'') (\<lambda>m. ''raft::server_state::'') content;
          content = re_sub (lit ''raft_configuration'' @ [WordB])
            (\<lambda>m. ''raft::raft_configuration'') content;
          content = re_sub (lit ''error_handler<'') (\<lambda>m. ''kythira::error_handler<'') content;
          content = re_sub (lit ''raft_future_collector<'')
            (\<lambda>m. ''raft::raft_future_collector<'') content;
          content = re_sub (spaces_head @ lit ''persistence_engine<'')
            (\<lambda>m. m 1 @ ''raft::persistence_engine<'') content;
          content = re_sub (spaces_head @ lit ''diagnostic_logger<'')
            (\<lambda>m. m 1 @ ''raft::diagnostic_logger<'') content;
          content = re_sub (spaces_head @ lit ''metrics<'')
            (\<lambda>m. m 1 @ ''raft::metrics<'') content;
          content = re_sub (spaces_head @ lit ''membership_manager<'')
            (\<lambda>m. m 1 @ ''raft::membership_manager<'') content;
          content = re_sub (spaces_head @ lit ''node_id<'')
            (\<lambda>m. m 1 @ ''raft::node_id<'') content;
          content = re_sub (spaces_head @ lit ''term_id<'')
            (\<lambda>m. m 1 @ ''raft::term_id<'') content;
          content = re_sub (spaces_head @ lit ''log_index<'')
            (\<lambda>m. m 1 @ ''raft::log_index<'') content;
          content = re_sub (lit ''raft::configuration_synchronizer<FutureType>'')
            (\<lambda>m. ''raft::configuration_synchronizer<NodeId, LogIndex, FutureType>'') content
      in content)"

definition fix_raft_complete :: "world \<Rightarrow> world \<times> error option" where
  "fix_raft_complete = rewrite raft_hpp fix_raft_complete_text"

section \<open>fix\_all\_templates.py\<close>

definition lazy_line :: "item list" where
  \<comment> \<open>\<^verbatim>\<open>.*?\n\<close> under \<open>re.DOTALL\<close>\<close>
  "lazy_line = Lazy Dot # lit ''\<newline>''"

definition all_templates_pattern :: "item list" where
  \<comment> \<open>\<^verbatim>\<open>(template<\s*\n\s*typename NetworkClient,\s*\n\<close>, eight times \<^verbatim>\<open>.*?\n\<close>,
      \<^verbatim>\<open>>\s*\nrequires\s*\n\s*kythira::network_client<NetworkClient, FutureType>.*?\n.*?auto node<)(NetworkClient,)\<close>\<close>
  "all_templates_pattern =
     group 1
       (lit ''template<'' @ [Star Space] @ lit ''\<newline>'' @ [Star Space] @
        lit ''typename NetworkClient,'' @ [Star Space] @ lit ''\<newline>'' @
        lazy_line @ lazy_line @ lazy_line @ lazy_line @
        lazy_line @ lazy_line @ lazy_line @ lazy_line @
        lit ''>'' @ [Star Space] @ lit ''\<newline>requires'' @ [Star Space] @ lit ''\<newline>'' @
        [Star Space] @ lit ''kythira::network_client<NetworkClient, FutureType>'' @
        lazy_line @ [Lazy Dot] @ lit ''auto node<'') @
     group 2 (lit ''NetworkClient,'')"

definition replacement :: "(nat \<Rightarrow> string) \<Rightarrow> string" where
  "replacement m =
     (let template_part = m 1;
          node_part = m 2;
          new_template = str_replace ''template<\<newline>    typename NetworkClient,''
            ''template<\<newline>    typename FutureType,\<newline>    typename NetworkClient,'' template_part;
          new_template = re_sub
            (lit ''requires \<newline>    kythira::network_client<NetworkClient, FutureType>'')
            (\<lambda>m. ''requires \<newline>    future<FutureType, std::vector<std::byte>> &&\<newline>    future<FutureType, bool> &&\<newline>    kythira::network_client<NetworkClient, FutureType>'')
            new_template;
          new_template = str_replace ''persistence_engine<'' ''raft::persistence_engine<'' new_template;
          new_template = str_replace ''diagnostic_logger<'' ''raft::diagnostic_logger<'' new_template;
          new_template = str_replace ''metrics<'' ''raft::metrics<'' new_template;
          new_template = str_replace ''membership_manager<'' ''raft::membership_manager<'' new_template;
          new_template = str_replace ''node_id<'' ''raft::node_id<'' new_template;
          new_template = str_replace ''term_id<'' ''raft::term_id<'' new_template;
          new_template = str_replace ''log_index<'' ''raft::log_index<'' new_template;
          new_node_part = ''FutureType, '' @ node_part
      in new_template @ new_node_part)"

definition template_pass :: "string \<Rightarrow> string" where
  \<comment> \<open>one pass: \<open>re.sub(pattern, replacement, fixed_content)\<close>\<close>
  "template_pass fixed_content = re_sub all_templates_pattern replacement fixed_content"

text \<open>
  The loop \<open>for i in range(5)\<close>: \<open>passes_loop k fixed_content n\<close> has \<open>k\<close> iterations left
  and has run \<open>n\<close> passes; it returns the content the loop leaves in \<open>fixed_content\<close> and the
  number of passes run.
\<close>

fun passes_loop :: "nat \<Rightarrow> string \<Rightarrow> nat \<Rightarrow> string \<times> nat" where
  "passes_loop 0 fixed_content n = (fixed_content, n)"
| "passes_loop (Suc k) fixed_content n =
     (let new_content = template_pass fixed_content
      in if new_content = fixed_content then (fixed_content, Suc n)
         else passes_loop k new_content (Suc n))"

definition fix_all_templates_text :: "string \<Rightarrow> string" where
  "fix_all_templates_text content = fst (passes_loop 5 content 0)"

definition fix_all_template_declarations :: "world \<Rightarrow> world \<times> error option" where
  "fix_all_template_declarations = rewrite raft_hpp fix_all_templates_text"

section \<open>fix\_completion\_tests.py\<close>

text \<open>
  \<open>glob.glob\<close> on a pattern whose only wildcard is \<open>*\<close>: the paths of the world that
  the pattern matches, in the order of the listing; a \<open>*\<close> stands for any run of
  characters within one path component.
\<close>

fun wild :: "string \<Rightarrow> string \<Rightarrow> bool" where
  "wild [] [] = True"
| "wild [] (x # s) = False"
| "wild (p # ps) [] = (p = CHR ''*'' \<and> wild ps [])"
| "wild (p # ps) (x # s) =
     (if p = CHR ''*'' then wild ps (x # s) \<or> (x \<noteq> CHR ''/'' \<and> wild (p # ps) s)
      else p = x \<and> wild ps s)"

definition glob :: "world \<Rightarrow> string \<Rightarrow> string list" where
  "glob w pattern = filter (wild pattern) (map fst (files w))"

definition test_patterns :: "string list" where
  "test_patterns =
     [''tests/raft_*_completion_property_test.cpp'',
      ''tests/raft_*_collection_property_test.cpp'',
      ''tests/raft_*_retry_*_property_test.cpp'',
      ''tests/raft_*_linearizability_*_property_test.cpp'',
      ''tests/raft_*_read_*_property_test.cpp'',
      ''tests/raft_*_concurrent_*_property_test.cpp'']"

definition test_files :: "world \<Rightarrow> string list" where
  \<comment> \<open>the concatenation of the six \<open>glob.glob\<close> results\<close>
  "test_files w = concat (map (glob w) test_patterns)"

definition serializer_args :: "item list" where
  \<comment> \<open>\<^verbatim>\<open><\s*raft::json_rpc_serializer<std::vector<std::byte>>,\s*std::vector<std::byte>\s*>\<close>\<close>
  "serializer_args =
     lit ''<'' @ [Star Space] @ lit ''raft::json_rpc_serializer<std::vector<std::byte>>,'' @
     [Star Space] @ lit ''std::vector<std::byte>'' @ [Star Space] @ lit ''>''"

definition completion_test_text :: "string \<Rightarrow> string" where
  "completion_test_text content =
     (let content = re_sub
            (lit ''network_simulator::NetworkSimulator<std::uint64_t, std::uint16_t>'')
            (\<lambda>m. ''kythira::NetworkSimulator<std::uint64_t, std::uint16_t, kythira::Future<network_simulator::Message<std::uint64_t, std::uint16_t>>>'')
            content;
          content = re_sub (lit ''kythira::simulator_network_client'' @ serializer_args)
            (\<lambda>m. ''kythira::simulator_network_client<kythira::Future<std::vector<std::byte>>, raft::json_rpc_serializer<std::vector<std::byte>>, std::vector<std::byte>>'')
            content;
          content = re_sub (lit ''kythira::simulator_network_server'' @ serializer_args)
            (\<lambda>m. ''kythira::simulator_network_server<kythira::Future<std::vector<std::byte>>, raft::json_rpc_serializer<std::vector<std::byte>>, std::vector<std::byte>>'')
            content
      in content)"

fun fix_each_test :: "string list \<Rightarrow> world \<Rightarrow> world \<times> error option" where
  \<comment> \<open>\<open>for test_file in test_files\<close>; an exception ends the loop\<close>
  "fix_each_test [] w = (w, None)"
| "fix_each_test (test_file # fs) w =
     (case rewrite test_file completion_test_text w of
        (w', Some e) \<Rightarrow> (w', Some e)
      | (w', None) \<Rightarrow> fix_each_test fs w')"

definition fix_completion_tests :: "world \<Rightarrow> world \<times> error option" where
  "fix_completion_tests w = fix_each_test (test_files w) w"

section \<open>fix\_templates.py\<close>

fun split_nl :: "string \<Rightarrow> string list" where
  \<comment> \<open>\<open>content.split('\n')\<close>\<close>
  "split_nl [] = [[]]"
| "split_nl (c # s) =
     (if c = CHR 0x0A then [] # split_nl s
      else (case split_nl s of [] \<Rightarrow> [[c]] | l # ls \<Rightarrow> (c # l) # ls))"

fun join_nl :: "string list \<Rightarrow> string" where
  \<comment> \<open>\<open>'\n'.join(xs)\<close>\<close>
  "join_nl [] = []"
| "join_nl [x] = x"
| "join_nl (x # y # ys) = x @ CHR 0x0A # join_nl (y # ys)"

definition fix_line :: "string \<Rightarrow> string list" where
  \<comment> \<open>the lines that the inner loop appends for one line of a template block\<close>
  "fix_line l =
     (if contains ''typename NetworkClient,'' l then [''    typename NetworkClient,'']
      else if contains ''requires'' l then
        [''requires'', ''    future<FutureType, std::vector<std::byte>> &&'',
         ''    future<FutureType, bool> &&'']
      else if contains ''kythira::network_client<NetworkClient, FutureType>'' l then
        [''    kythira::network_client<NetworkClient, FutureType> &&'']
      else if contains ''kythira::network_server<NetworkServer, FutureType>'' l then
        [''    kythira::network_server<NetworkServer, FutureType> &&'']
      else if contains ''persistence_engine<'' l then
        [str_replace ''persistence_engine<'' ''raft::persistence_engine<'' l]
      else if contains ''diagnostic_logger<'' l then
        [str_replace ''diagnostic_logger<'' ''raft::diagnostic_logger<'' l]
      else if contains ''metrics<'' l then [str_replace ''metrics<'' ''raft::metrics<'' l]
      else if contains ''membership_manager<'' l then
        [str_replace ''membership_manager<'' ''raft::membership_manager<'' l]
      else if contains ''node_id<'' l then [str_replace ''node_id<'' ''raft::node_id<'' l]
      else if contains ''term_id<'' l then [str_replace ''term_id<'' ''raft::term_id<'' l]
      else if contains ''log_index<'' l then [str_replace ''log_index<'' ''raft::log_index<'' l]
      else [l])"

fun block_lines :: "string list \<Rightarrow> string list \<times> string list" where
  \<comment> \<open>the inner \<open>while\<close>: the lines appended up to the first line that starts with
      \<open>auto node<\<close>, and the lines left from there\<close>
  "block_lines [] = ([], [])"
| "block_lines (l # ls) =
     (if startswith (strip l) ''auto node<'' then ([], l # ls)
      else (case block_lines ls of (out, rest) \<Rightarrow> (fix_line l @ out, rest)))"

lemma block_lines_length: "length (snd (block_lines ls)) \<le> length ls"
  by (induction ls) (auto split: prod.splits)

function fix_lines :: "string list \<Rightarrow> string list" where
  \<comment> \<open>the outer \<open>while i < len(lines)\<close>, on the lines from index \<open>i\<close> on\<close>
  "fix_lines [] = []"
| "fix_lines (line # rest) =
     (if startswith (strip line) ''template<'' \<and> 15 < length (line # rest) then
        (let template_block = join_nl (take 20 (line # rest))
         in if contains ''typename NetworkClient,'' template_block \<and>
               contains ''FutureType'' template_block \<and>
               \<not> contains ''typename FutureType,'' template_block
            then ''template<'' # ''    typename FutureType,'' #
                 fst (block_lines rest) @
                 (case snd (block_lines rest) of
                    [] \<Rightarrow> []
                  | l # ls \<Rightarrow>
                      if contains ''auto node<'' l
                      then str_replace ''auto node<NetworkClient,''
                             ''auto node<FutureType, NetworkClient,'' l # fix_lines ls
                      else fix_lines (l # ls))
            else line # fix_lines rest)
      else line # fix_lines rest)"
  by pat_completeness auto
termination
proof (relation "measure length", goal_cases)
  case 1
  show ?case by simp
next
  case (2 line rest tb l ls)
  have "length (snd (block_lines rest)) \<le> length rest" by (rule block_lines_length)
  with 2 show ?case by simp
next
  case (3 line rest tb l ls)
  have "length (snd (block_lines rest)) \<le> length rest" by (rule block_lines_length)
  with 3 show ?case by simp
next
  case 4
  show ?case by simp
next
  case 5
  show ?case by simp
qed

definition fix_templates_text :: "string \<Rightarrow> string" where
  "fix_templates_text content = join_nl (fix_lines (split_nl content))"

definition fix_template_declarations :: "world \<Rightarrow> world \<times> error option" where
  "fix_template_declarations = rewrite raft_hpp fix_templates_text"

section \<open>remove\_duplicates.py\<close>

fun readlines :: "string \<Rightarrow> string list" where
  \<comment> \<open>\<open>f.readlines()\<close>: the lines of the text, each with its newline\<close>
  "readlines [] = []"
| "readlines (c # s) =
     (if c = CHR 0x0A then [c] # readlines s
      else (case readlines s of [] \<Rightarrow> [[c]] | l # ls \<Rightarrow> (c # l) # ls))"

definition writelines :: "string list \<Rightarrow> string" where
  \<comment> \<open>\<open>f.writelines(lines)\<close>\<close>
  "writelines lines = concat lines"

definition duplicates_to_remove :: "(nat \<times> string) list" where
  "duplicates_to_remove =
     [(1846, ''should_use_block_transfer''),
      (1852, ''split_payload_into_blocks''),
      (1917, ''cleanup_expired_block_transfers''),
      (1934, ''detect_malformed_message''),
      (2005, ''handle_resource_exhaustion''),
      (2094, ''get_or_create_session''),
      (2171, ''return_session_to_pool''),
      (2202, ''cleanup_expired_sessions''),
      (2266, ''allocate_from_pool''),
      (2282, ''get_cached_serialization''),
      (2310, ''cache_serialization''),
      (2334, ''cleanup_serialization_cache''),
      (2668, ''setup_multicast_listener'')]"

definition sort_reverse :: "(nat \<times> string) list \<Rightarrow> (nat \<times> string) list" where
  \<comment> \<open>\<open>xs.sort(key=lambda x: x[0], reverse=True)\<close>: a stable sort of the reversed list,
      reversed again\<close>
  "sort_reverse xs = rev (sort_key fst (rev xs))"

definition is_boundary :: "string \<Rightarrow> bool" where
  \<comment> \<open>the test of the search loop on \<open>lines[i].strip()\<close>\<close>
  "is_boundary l =
     (let line = strip l
      in startswith line ''template<'' \<or> startswith line ''} // namespace'')"

fun scan_boundary :: "string list \<Rightarrow> nat \<Rightarrow> nat" where
  \<comment> \<open>\<open>for i in range(..., len(lines))\<close> on the lines from index \<open>i\<close> on: the first boundary
      line stops the loop with \<open>end_idx = i\<close>\<close>
  "scan_boundary [] i = i"
| "scan_boundary (l # ls) i = (if is_boundary l then i else scan_boundary ls (Suc i))"

definition find_end :: "string list \<Rightarrow> nat \<Rightarrow> nat" where
  \<comment> \<open>\<open>end_idx\<close> after the search from index \<open>i\<close>; it stays \<open>len(lines)\<close> when the range is
      empty or has no boundary line\<close>
  "find_end lines i = (if i \<le> length lines then scan_boundary (drop i lines) i else length lines)"

definition del_slice :: "nat \<Rightarrow> nat \<Rightarrow> 'a list \<Rightarrow> 'a list" where
  \<comment> \<open>\<open>del xs[a:b]\<close> for indices that are not negative: both are clamped to the length, and
      nothing is deleted unless \<open>a < b\<close>\<close>
  "del_slice a b xs = (if a < b then take a xs @ drop b xs else xs)"

definition remove_one :: "string list \<Rightarrow> nat \<times> string \<Rightarrow> string list" where
  \<comment> \<open>the body of the removal loop; every listed start line is at least 1, so
      \<open>start_line - 1\<close> is not negative\<close>
  "remove_one lines d =
     (let start_line = fst d;
          start_idx = start_line - 1;
          end_idx = find_end lines (start_idx + 1)
      in del_slice start_idx end_idx lines)"

definition remove_all :: "string list \<Rightarrow> (nat \<times> string) list \<Rightarrow> string list" where
  \<comment> \<open>\<open>for start_line, method_name in duplicates_to_remove\<close>\<close>
  "remove_all lines ds = foldl remove_one lines ds"

definition remove_duplicates_text :: "string \<Rightarrow> string" where
  "remove_duplicates_text content =
     writelines (remove_all (readlines content) (sort_reverse duplicates_to_remove))"

definition remove_duplicates :: "world \<Rightarrow> world \<times> error option" where
  "remove_duplicates = rewrite coap_transport_impl_hpp remove_duplicates_text"

definition scripts :: "(world \<Rightarrow> world \<times> error option) list" where
  \<comment> \<open>the ten scripts of the repository\<close>
  "scripts =
     [fix_all_raft_methods, fix_raft_method_templates, fix_template_declarations,
      fix_raft_comprehensive, fix_raft_template_issues, fix_raft_namespaces,
      remove_duplicates, fix_raft_complete, fix_all_template_declarations,
      fix_completion_tests]"

section \<open>The transport that the patched header implements\<close>

text \<open>
  remove\_duplicates.py names the methods of include/raft/coap\_transport\_impl.hpp whose
  second copies it deletes: the block transfer (\<open>should_use_block_transfer\<close>,
  \<open>split_payload_into_blocks\<close>), the session pool (\<open>get_or_create_session\<close>,
  \<open>return_session_to_pool\<close>, \<open>cleanup_expired_sessions\<close>) and the serialization cache
  (\<open>get_cached_serialization\<close>, \<open>cache_serialization\<close>, \<open>cleanup_serialization_cache\<close>).
  The header itself is not among the sources. The definitions of this section follow the
  specification's description of these methods.
\<close>

type_synonym byte = "8 word"

subsection \<open>Block transfer\<close>

text \<open>
  Modelled from the spec: a block of the absent coap\_transport\_impl.hpp, "carrying
  sequence + more-flag metadata" and its part of the payload.
\<close>

record block =
  seq :: nat
  more_flag :: bool
  data :: "byte list"

definition should_use_block_transfer :: "nat \<Rightarrow> byte list \<Rightarrow> bool" where
  \<comment> \<open>Modelled from the spec: \<open>should_use_block_transfer\<close> of the absent
      coap\_transport\_impl.hpp, which "decides by payload size against a negotiated block
      size"; a payload "exceeding" the block size is sent in blocks\<close>
  "should_use_block_transfer block_size payload = (block_size < length payload)"

function split_from :: "nat \<Rightarrow> nat \<Rightarrow> byte list \<Rightarrow> block list" where
  \<comment> \<open>Modelled from the spec: the loop of \<open>split_payload_into_blocks\<close> of the absent
      coap\_transport\_impl.hpp, from block number \<open>n\<close> on: "ordered, independently-sendable
      blocks carrying sequence + more-flag metadata", each of the block size but the last.
      The spec gives no block size of 0; the model then sends one block\<close>
  "split_from block_size n payload =
     (if block_size = 0 \<or> length payload \<le> block_size
      then [\<lparr>seq = n, more_flag = False, data = payload\<rparr>]
      else \<lparr>seq = n, more_flag = True, data = take block_size payload\<rparr> #
           split_from block_size (Suc n) (drop block_size payload))"
  by pat_completeness auto
termination
  by (relation "measure (\<lambda>(block_size, n, payload). length payload)") auto

declare split_from.simps [simp del]

definition split_payload_into_blocks :: "nat \<Rightarrow> byte list \<Rightarrow> block list" where
  \<comment> \<open>Modelled from the spec: \<open>split_payload_into_blocks\<close> of the absent
      coap\_transport\_impl.hpp\<close>
  "split_payload_into_blocks block_size payload = split_from block_size 0 payload"

text \<open>
  Modelled from the spec: the receiver's state for one message, absent with
  coap\_transport\_impl.hpp, after the specification's BlockTransferState:
  block size, total size (known once the block without the more flag has arrived), the
  bitmap of received blocks and the reassembly buffer. The message id that keys the table
  of such states and the creation timestamp that expiry reads play no part in the
  reassembly of one message and are left out.
\<close>

record block_transfer_state =
  block_size :: nat
  total_size :: "nat option"
  received :: "nat set"
  buffer :: "byte list"

definition new_transfer :: "nat \<Rightarrow> block_transfer_state" where
  \<comment> \<open>Modelled from the spec: the state "created on first block of a multi-block message"\<close>
  "new_transfer bs = \<lparr>block_size = bs, total_size = None, received = {}, buffer = []\<rparr>"

definition write_at :: "nat \<Rightarrow> byte list \<Rightarrow> byte list \<Rightarrow> byte list" where
  \<comment> \<open>Modelled from the spec: a write into the reassembly buffer at an offset; the buffer
      grows, filled with zero bytes, when the write ends beyond it\<close>
  "write_at off d buf =
     (let padded = buf @ replicate (off + length d - length buf) 0
      in take off padded @ d @ drop (off + length d) padded)"

definition receive_block :: "block_transfer_state \<Rightarrow> block \<Rightarrow> block_transfer_state" where
  \<comment> \<open>Modelled from the spec: the receiver "reassembles blocks into a buffer ...,
      tolerating out-of-order and duplicate arrival (duplicates are idempotently ignored)":
      a block whose number is in the bitmap is ignored, any other is written at
      \<open>seq * block_size\<close>\<close>
  "receive_block st b =
     (if seq b \<in> received st then st
      else st\<lparr>received := insert (seq b) (received st),
              buffer := write_at (seq b * block_size st) (data b) (buffer st),
              total_size := (if more_flag b then total_size st
                             else Some (seq b * block_size st + length (data b)))\<rparr>)"

definition reassembled :: "block_transfer_state \<Rightarrow> byte list option" where
  \<comment> \<open>Modelled from the spec: the payload on "completion": the total size is known and
      every byte below it lies in a received block\<close>
  "reassembled st =
     (case total_size st of
        None \<Rightarrow> None
      | Some t \<Rightarrow> if \<forall>i \<in> {0..<t}. i div block_size st \<in> received st
                  then Some (take t (buffer st)) else None)"

definition reassemble :: "nat \<Rightarrow> block list \<Rightarrow> byte list option" where
  \<comment> \<open>Modelled from the spec: the receiver run on the blocks in their order of arrival\<close>
  "reassemble bs arrivals = reassembled (foldl receive_block (new_transfer bs) arrivals)"

text \<open>For the proofs: the \<open>k\<close>-th block of a payload, and the number of its blocks.\<close>

definition nth_block :: "nat \<Rightarrow> byte list \<Rightarrow> nat \<Rightarrow> nat \<Rightarrow> block" where
  "nth_block bs payload n k =
     \<lparr>seq = n + k, more_flag = (Suc k * bs < length payload),
      data = take bs (drop (k * bs) payload)\<rparr>"

definition block_count :: "nat \<Rightarrow> byte list \<Rightarrow> nat" where
  "block_count bs payload =
     (if length payload = 0 then 1 else (length payload + bs - 1) div bs)"

definition transfer_inv :: "nat \<Rightarrow> byte list \<Rightarrow> nat set \<Rightarrow> block_transfer_state \<Rightarrow> bool" where
  "transfer_inv bs p K st \<longleftrightarrow>
     block_size st = bs \<and> received st = K \<and> K \<subseteq> {0..<block_count bs p} \<and>
     (\<forall>k \<in> K. \<forall>i. k * bs \<le> i \<and> i < Suc k * bs \<and> i < length p \<longrightarrow>
        i < length (buffer st) \<and> buffer st ! i = p ! i) \<and>
     total_size st = (if \<exists>k \<in> K. \<not> Suc k < block_count bs p then Some (length p) else None)"

definition payload_2k :: "byte list" where
  \<comment> \<open>a payload of 2048 bytes\<close>
  "payload_2k = map of_nat [0..<2048]"

subsection \<open>Session pool\<close>














subsection \<open>Serialization cache\<close>












section \<open>Example inputs\<close>

definition multiline_decl :: string where
  \<comment> \<open>a method definition of the header, its template parameter list on lines of its own\<close>
  "multiline_decl =
     ''template<\<newline>    typename NetworkClient\<newline>>\<newline>requires kythira::network_client<NetworkClient, FutureType>\<newline>auto node<NetworkClient>::start() -> void {''"

definition nine_line_decl :: string where
  \<comment> \<open>a method definition with \<open>NetworkClient\<close> and eight more template parameters, one
      per line\<close>
  "nine_line_decl =
     ''template<\<newline>    typename NetworkClient,\<newline>A,\<newline>B,\<newline>C,\<newline>D,\<newline>E,\<newline>F,\<newline>G,\<newline>H\<newline>>\<newline>requires \<newline>    kythira::network_client<NetworkClient, FutureType>\<newline>auto node<NetworkClient, A>::f''"

definition nine_line_decl_fixed :: string where
  "nine_line_decl_fixed =
     ''template<\<newline>    typename FutureType,\<newline>    typename NetworkClient,\<newline>A,\<newline>B,\<newline>C,\<newline>D,\<newline>E,\<newline>F,\<newline>G,\<newline>H\<newline>>\<newline>requires \<newline>    future<FutureType, std::vector<std::byte>> &&\<newline>    future<FutureType, bool> &&\<newline>    kythira::network_client<NetworkClient, FutureType>\<newline>auto node<FutureType, NetworkClient, A>::f''"

definition file_one_duplicate :: "string list" where
  \<comment> \<open>the lines of a file whose line 2334 starts a two-line method, with the next
      \<open>template<\<close> on line 2336\<close>
  "file_one_duplicate =
     replicate 2333 ''x\<newline>'' @ [''template<\<newline>'', ''dup\<newline>'', ''template<\<newline>'', ''}\<newline>'']"

definition file_indented_template :: "string list" where
  \<comment> \<open>the lines of a file whose line 2668 is followed by an indented \<open>template<\<close> line\<close>
  "file_indented_template =
     replicate 2667 ''x\<newline>'' @
     [''dup\<newline>'', ''    template<typename T>\<newline>'', ''y\<newline>'', ''template<\<newline>'']"

definition world_with_test :: world where
  \<comment> \<open>a checkout with the header and one completion test\<close>
  "world_with_test =
     \<lparr>files = [(''include/raft/raft.hpp'', ''x''),
               (''tests/raft_a_completion_property_test.cpp'',
                ''network_simulator::NetworkSimulator<std::uint64_t, std::uint16_t> s;'')],
      opened_w = []\<rparr>"

definition world_plain_test :: world where
  \<comment> \<open>a checkout with the header, a test that a pattern matches and one that none matches\<close>
  "world_plain_test =
     \<lparr>files = [(''include/raft/raft.hpp'', ''x''),
               (''tests/raft_b_read_c_property_test.cpp'', ''y''),
               (''tests/other_test.cpp'', ''z'')],
      opened_w = []\<rparr>"

section \<open>Properties\<close>

subsection \<open>Matches are not empty\<close>

text \<open>
  A match consumes a character for every \<open>One\<close> item of the pattern. Each pattern of the
  scripts has such an item, so \<open>sub_scan\<close> never meets an empty match of theirs.
\<close>

lemma mt_advances:
  "mt its prev s n ms = Some (e, ms') \<Longrightarrow>
     n + length (filter (\<lambda>i. \<exists>c. i = One c) its) \<le> e"
proof (induction its prev s n ms arbitrary: e ms' rule: mt.induct)
  case (5 c k prev x s n ms)
  then show ?case by (fastforce split: if_splits option.splits)
next
  case (7 c k prev x s n ms)
  then show ?case by (fastforce split: if_splits option.splits)
qed (fastforce split: if_splits)+

subsection \<open>The rewrite loop of fix\_all\_templates.py\<close>

lemma passes_loop_spec:
  "passes_loop k c n = (out, m) \<Longrightarrow>
     n \<le> m \<and> m \<le> n + k \<and>
     (\<forall>i < m - n - 1. (template_pass ^^ Suc i) c \<noteq> (template_pass ^^ i) c) \<and>
     ((n < m \<and> template_pass out = out \<and> out = (template_pass ^^ (m - n - 1)) c) \<or>
      (m = n + k \<and> out = (template_pass ^^ k) c \<and>
       (\<forall>i < k. (template_pass ^^ Suc i) c \<noteq> (template_pass ^^ i) c)))"
proof (induction k arbitrary: c n)
  case 0
  then show ?case by simp
next
  case (Suc k)
  show ?case
  proof (cases "template_pass c = c")
    case True
    with Suc.prems show ?thesis by simp
  next
    case False
    with Suc.prems have rec: "passes_loop k (template_pass c) (Suc n) = (out, m)"
      by (simp add: Let_def)
    note ih = Suc.IH [OF rec]
    have shift: "\<And>i. (template_pass ^^ i) (template_pass c) = (template_pass ^^ Suc i) c"
      by (simp add: funpow_swap1)
    have step: "\<And>j. (\<forall>i<j. (template_pass ^^ Suc i) (template_pass c) \<noteq> (template_pass ^^ i) (template_pass c))
         \<Longrightarrow> (\<forall>i<Suc j. (template_pass ^^ Suc i) c \<noteq> (template_pass ^^ i) c)"
    proof (intro allI impI)
      fix j i
      assume a: "\<forall>i<j. (template_pass ^^ Suc i) (template_pass c) \<noteq> (template_pass ^^ i) (template_pass c)"
        and b: "i < Suc j"
      show "(template_pass ^^ Suc i) c \<noteq> (template_pass ^^ i) c"
      proof (cases i)
        case 0
        with False show ?thesis by simp
      next
        case (Suc i')
        with b have "i' < j" by simp
        with a have "(template_pass ^^ Suc i') (template_pass c) \<noteq> (template_pass ^^ i') (template_pass c)"
          by blast
        then show ?thesis unfolding Suc shift .
      qed
    qed
    from ih have le: "Suc n \<le> m" "m \<le> Suc n + k" by auto
    from ih have ch: "\<forall>i < m - Suc n - 1. (template_pass ^^ Suc i) (template_pass c) \<noteq> (template_pass ^^ i) (template_pass c)"
      by blast
    have eqn: "m - n - 1 = m - Suc n" by simp
    have ch': "\<forall>i < m - n - 1. (template_pass ^^ Suc i) c \<noteq> (template_pass ^^ i) c"
    proof (cases "m - Suc n")
      case 0
      then show ?thesis by simp
    next
      case (Suc d)
      then have "m - Suc n - 1 = d" by simp
      with ch step [of d] have "\<forall>i<Suc d. (template_pass ^^ Suc i) c \<noteq> (template_pass ^^ i) c" by simp
      with Suc eqn show ?thesis by simp
    qed
    from ih consider
        (stopped) "Suc n < m" "template_pass out = out" "out = (template_pass ^^ (m - Suc n - 1)) (template_pass c)"
      | (full) "m = Suc n + k" "out = (template_pass ^^ k) (template_pass c)"
          "\<forall>i < k. (template_pass ^^ Suc i) (template_pass c) \<noteq> (template_pass ^^ i) (template_pass c)"
      by blast
    then show ?thesis
    proof cases
      case stopped
      define d where "d = m - Suc n - 1"
      have e: "m - n - 1 = Suc d" using stopped(1) by (simp add: d_def)
      have "out = (template_pass ^^ d) (template_pass c)" using stopped(3) by (simp only: d_def)
      then have "out = (template_pass ^^ Suc d) c" unfolding shift .
      then have "out = (template_pass ^^ (m - n - 1)) c" by (simp only: e)
      with stopped le ch' show ?thesis by simp
    next
      case full
      have "out = (template_pass ^^ Suc k) c" using full(2) unfolding shift .
      moreover have "\<forall>i<Suc k. (template_pass ^^ Suc i) c \<noteq> (template_pass ^^ i) c"
        using step [OF full(3)] .
      ultimately show ?thesis using full(1) le ch' by simp
    qed
  qed
qed

text \<open>
  C9. The rewrite loop of fix\_all\_templates.py always terminates (\<open>passes_loop\<close> is a
  total function, recursive on the number of iterations left). It runs at least one and at
  most five passes of the substitution; every pass before the last one changed the
  content; and the text written is either a fixpoint of the substitution, reached after
  \<open>n - 1\<close> changing passes when pass \<open>n\<close> changed nothing, or the result of exactly five
  passes.
\<close>

theorem fix_all_templates_loop:
  assumes "passes_loop 5 content 0 = (out, n)"
  shows "fix_all_templates_text content = out \<and> 1 \<le> n \<and> n \<le> 5 \<and>
         (\<forall>i < n - 1. (template_pass ^^ Suc i) content \<noteq> (template_pass ^^ i) content) \<and>
         (template_pass out = out \<and> out = (template_pass ^^ (n - 1)) content \<or>
          n = 5 \<and> out = (template_pass ^^ 5) content)"
proof -
  have spec: "0 \<le> n \<and> n \<le> 0 + 5 \<and>
     (\<forall>i < n - 0 - 1. (template_pass ^^ Suc i) content \<noteq> (template_pass ^^ i) content) \<and>
     ((0 < n \<and> template_pass out = out \<and> out = (template_pass ^^ (n - 0 - 1)) content) \<or>
      (n = 0 + 5 \<and> out = (template_pass ^^ 5) content \<and>
       (\<forall>i < 5. (template_pass ^^ Suc i) content \<noteq> (template_pass ^^ i) content)))"
    by (rule passes_loop_spec [OF assms])
  have a: "n \<le> 5" using spec by simp
  have b: "\<forall>i < n - 1. (template_pass ^^ Suc i) content \<noteq> (template_pass ^^ i) content"
    using spec by simp
  have c: "(0 < n \<and> template_pass out = out \<and> out = (template_pass ^^ (n - 1)) content) \<or>
        (n = 5 \<and> out = (template_pass ^^ 5) content)"
    using spec by auto
  from c have "1 \<le> n" by auto
  moreover have "fix_all_templates_text content = out"
    using assms by (simp add: fix_all_templates_text_def)
  ultimately show ?thesis using a b c by blast
qed

theorem fix_all_templates_loop_witness:
  "passes_loop 5 nine_line_decl 0 = (nine_line_decl_fixed, 2) \<and>
   fix_all_templates_text nine_line_decl = nine_line_decl_fixed \<and>
   template_pass nine_line_decl_fixed = nine_line_decl_fixed"
proof -
  have run: "passes_loop 5 nine_line_decl 0 = (nine_line_decl_fixed, 2)"
    by code_simp
  from fix_all_templates_loop [OF run] run show ?thesis
    by simp
qed

subsection \<open>fix\_all\_raft\_methods.py on a parameter list that spans lines\<close>

text \<open>
  C7. The callback of fix\_all\_raft\_methods.py is meant to insert \<open>typename FutureType\<close>
  as the first template parameter and \<open>FutureType\<close> as the first argument of
  \<open>node<...>\<close>. It looks the parameter list up in the match after stripping it, so for a
  declaration whose parameter list starts on a new line the first replacement finds
  nothing: the script adds \<open>FutureType\<close> to \<open>node<...>\<close> only and leaves the template
  parameter list without it.
\<close>

theorem fix_all_raft_methods_skips_template_parameter:
  "fix_all_raft_methods_text multiline_decl =
     ''template<\<newline>    typename NetworkClient\<newline>>\<newline>requires kythira::network_client<NetworkClient, FutureType>\<newline>auto node<FutureType, NetworkClient>::start() -> void {''"
  by code_simp

text \<open>
  C8. On the same declaration the substitution of fix\_all\_raft\_methods.py is not
  idempotent: the parameter list still lacks \<open>FutureType\<close> after the first run, so the
  second run adds a second \<open>FutureType\<close> to \<open>node<...>\<close>.
\<close>

theorem fix_all_raft_methods_second_run_differs:
  "fix_all_raft_methods_text (fix_all_raft_methods_text multiline_decl) =
     ''template<\<newline>    typename NetworkClient\<newline>>\<newline>requires kythira::network_client<NetworkClient, FutureType>\<newline>auto node<FutureType, FutureType, NetworkClient>::start() -> void {'' \<and>
   fix_all_raft_methods_text (fix_all_raft_methods_text multiline_decl) \<noteq>
     fix_all_raft_methods_text multiline_decl"
  by code_simp

subsection \<open>Evaluation\<close>

lemmas re_eval = re_sub_def lit_def rep1_def group_def grp_def isspace_def whitespace_def
  strip_def startswith_def Let_def lazy_line_def requires_head_def spaces_head_def indent_head_def

lemmas line_eval = is_boundary_def strip_def startswith_def isspace_def whitespace_def Let_def

subsection \<open>The ranges removed by remove\_duplicates.py\<close>

lemma scan_boundary_range: "i \<le> scan_boundary ls i \<and> scan_boundary ls i \<le> i + length ls"
proof (induction ls arbitrary: i)
  case Nil
  show ?case by simp
next
  case (Cons l ls)
  from Cons.IH [of "Suc i"] show ?case by simp
qed

lemma scan_boundary_before:
  "j < scan_boundary ls i - i \<Longrightarrow> \<not> is_boundary (ls ! j)"
proof (induction ls arbitrary: i j)
  case Nil
  then show ?case by simp
next
  case (Cons l ls)
  show ?case
  proof (cases "is_boundary l")
    case True
    with Cons.prems show ?thesis by simp
  next
    case False
    show ?thesis
    proof (cases j)
      case 0
      with False show ?thesis by simp
    next
      case (Suc j')
      from Cons.prems False Suc have "j' < scan_boundary ls (Suc i) - Suc i" by simp
      from Cons.IH [OF this] Suc show ?thesis by simp
    qed
  qed
qed

lemma scan_boundary_hit:
  "scan_boundary ls i < i + length ls \<Longrightarrow> is_boundary (ls ! (scan_boundary ls i - i))"
proof (induction ls arbitrary: i)
  case Nil
  then show ?case by simp
next
  case (Cons l ls)
  show ?case
  proof (cases "is_boundary l")
    case True
    then show ?thesis by simp
  next
    case False
    with Cons.prems have "scan_boundary ls (Suc i) < Suc i + length ls" by simp
    from Cons.IH [OF this] have hit: "is_boundary (ls ! (scan_boundary ls (Suc i) - Suc i))" .
    from scan_boundary_range [of "Suc i" ls] have "Suc i \<le> scan_boundary ls (Suc i)" by simp
    then have "scan_boundary ls (Suc i) - i = Suc (scan_boundary ls (Suc i) - Suc i)" by simp
    with hit False show ?thesis by simp
  qed
qed

lemma find_end_le: "find_end lines i \<le> length lines"
proof (cases "i \<le> length lines")
  case True
  with scan_boundary_range [of i "drop i lines"] show ?thesis by (simp add: find_end_def)
next
  case False
  then show ?thesis by (simp add: find_end_def)
qed

lemma find_end_ge: "i \<le> length lines \<Longrightarrow> i \<le> find_end lines i"
  using scan_boundary_range [of i "drop i lines"] by (simp add: find_end_def)

lemma find_end_before:
  assumes "i \<le> j" and "j < find_end lines i"
  shows "\<not> is_boundary (lines ! j)"
proof -
  from assms find_end_le [of lines i] have le: "i \<le> length lines" by simp
  then have e: "find_end lines i = scan_boundary (drop i lines) i" by (simp add: find_end_def)
  with assms have "j - i < scan_boundary (drop i lines) i - i" by simp
  from scan_boundary_before [OF this] have "\<not> is_boundary (drop i lines ! (j - i))" .
  moreover from assms find_end_le [of lines i] have "i + (j - i) < length lines" by simp
  ultimately show ?thesis using assms(1) by simp
qed

lemma find_end_hit:
  assumes "find_end lines i < length lines"
  shows "is_boundary (lines ! find_end lines i)"
proof -
  from assms have le: "i \<le> length lines" by (simp add: find_end_def split: if_splits)
  then have e: "find_end lines i = scan_boundary (drop i lines) i" by (simp add: find_end_def)
  with assms le have "scan_boundary (drop i lines) i < i + length (drop i lines)" by simp
  from scan_boundary_hit [OF this]
  have "is_boundary (drop i lines ! (scan_boundary (drop i lines) i - i))" .
  moreover from find_end_ge [OF le] e have "i \<le> scan_boundary (drop i lines) i" by simp
  ultimately show ?thesis using e assms by simp
qed

lemma remove_one_region:
  assumes "1 \<le> fst d"
  shows "remove_one lines d = take (fst d - 1) lines @ drop (find_end lines (fst d)) lines"
proof (cases "fst d - 1 < find_end lines (fst d)")
  case True
  with assms show ?thesis by (simp add: remove_one_def del_slice_def Let_def)
next
  case False
  have "length lines \<le> fst d - 1"
  proof (rule ccontr)
    assume "\<not> length lines \<le> fst d - 1"
    with assms have "fst d \<le> length lines" by simp
    from find_end_ge [OF this] False assms show False by simp
  qed
  moreover from this assms have "find_end lines (fst d) = length lines"
    using find_end_le [of lines "fst d"] find_end_ge [of "fst d" lines]
    by (cases "fst d \<le> length lines") (simp_all add: find_end_def)
  ultimately show ?thesis using False assms
    by (simp add: remove_one_def del_slice_def Let_def)
qed

lemma remove_one_prefix:
  assumes "k < fst d"
  shows "take k (remove_one lines d) = take k lines"
proof -
  from assms have one: "1 \<le> fst d" and k: "k \<le> fst d - 1" by simp_all
  have "take k (take (fst d - 1) lines @ drop (find_end lines (fst d)) lines) = take k lines"
  proof (cases "fst d - 1 \<le> length lines")
    case True
    with k show ?thesis by (simp add: min_def)
  next
    case False
    then have "take (fst d - 1) lines = lines" by simp
    moreover from False have "\<not> fst d \<le> length lines" by simp
    then have "drop (find_end lines (fst d)) lines = []"
      by (simp add: find_end_def)
    ultimately show ?thesis by simp
  qed
  with remove_one_region [OF one] show ?thesis by simp
qed

lemma remove_all_prefix:
  "\<forall>d \<in> set ds. k < fst d \<Longrightarrow> take k (remove_all lines ds) = take k lines"
proof (induction ds arbitrary: lines)
  case Nil
  show ?case by (simp add: remove_all_def)
next
  case (Cons d ds)
  from Cons.prems have "k < fst d" and rest: "\<forall>d \<in> set ds. k < fst d" by simp_all
  have "take k (remove_all (remove_one lines d) ds) = take k (remove_one lines d)"
    by (rule Cons.IH [OF rest])
  also have "\<dots> = take k lines" by (rule remove_one_prefix [OF \<open>k < fst d\<close>])
  finally show ?case by (simp add: remove_all_def)
qed

lemma sorted_starts:
  "map fst (sort_reverse duplicates_to_remove) =
     [2668, 2334, 2310, 2282, 2266, 2202, 2171, 2094, 2005, 1934, 1917, 1852, 1846]"
  by (simp add: sort_reverse_def duplicates_to_remove_def)

text \<open>
  C10, as the code has it. remove\_duplicates.py goes through its 13 listed ranges in
  strictly descending order of start line. When the range \<open>d\<close> is reached, after the
  ranges \<open>pre\<close> before it, the lines up to and including the start line are still those of
  the file as read, so the start index addresses the line it was listed for. The deletion
  removes the lines from the start line up to, but not including, the next line that,
  \<^emph>\<open>with the whitespace around it stripped\<close>, begins with \<open>template<\<close> or
  \<open>} // namespace\<close>, or up to the end of the file when no such line follows.
\<close>

theorem remove_duplicates_regions:
  fixes lines :: "string list"
  assumes split: "sort_reverse duplicates_to_remove = pre @ d # post"
  defines "cur \<equiv> remove_all lines pre"
  defines "e \<equiv> find_end cur (fst d)"
  shows "length (sort_reverse duplicates_to_remove) = 13 \<and>
         sorted_wrt (>) (map fst (sort_reverse duplicates_to_remove)) \<and>
         take (fst d) cur = take (fst d) lines \<and>
         remove_all lines (pre @ [d]) = take (fst d - 1) cur @ drop e cur \<and>
         e \<le> length cur \<and>
         (\<forall>j. fst d \<le> j \<and> j < e \<longrightarrow> \<not> is_boundary (cur ! j)) \<and>
         (e < length cur \<longrightarrow> is_boundary (cur ! e))"
proof -
  have len: "length (sort_reverse duplicates_to_remove) = 13"
    using arg_cong [OF sorted_starts, of length] by simp
  have desc: "sorted_wrt (>) (map fst (sort_reverse duplicates_to_remove))"
    unfolding sorted_starts by simp
  from desc split have "sorted_wrt (>) (map fst pre @ fst d # map fst post)" by simp
  then have above: "\<forall>x \<in> set pre. fst d < fst x"
    by (auto simp: sorted_wrt_append)
  have "fst d \<in> set (map fst (sort_reverse duplicates_to_remove))"
    unfolding split by simp
  then have one: "1 \<le> fst d" unfolding sorted_starts by auto
  have pre: "take (fst d) cur = take (fst d) lines"
    unfolding cur_def by (rule remove_all_prefix [OF above])
  have "remove_all lines (pre @ [d]) = remove_one cur d"
    by (simp add: remove_all_def cur_def)
  then have reg: "remove_all lines (pre @ [d]) = take (fst d - 1) cur @ drop e cur"
    unfolding e_def by (simp add: remove_one_region [OF one])
  have le: "e \<le> length cur" unfolding e_def by (rule find_end_le)
  have before: "\<forall>j. fst d \<le> j \<and> j < e \<longrightarrow> \<not> is_boundary (cur ! j)"
    unfolding e_def using find_end_before by blast
  have hit: "e < length cur \<longrightarrow> is_boundary (cur ! e)"
    unfolding e_def using find_end_hit by blast
  from len desc pre reg le before hit show ?thesis by blast
qed

theorem remove_duplicates_regions_witness:
  "sort_reverse duplicates_to_remove =
     [(2668, ''setup_multicast_listener'')] @ (2334, ''cleanup_serialization_cache'') #
     [(2310, ''cache_serialization''), (2282, ''get_cached_serialization''),
      (2266, ''allocate_from_pool''), (2202, ''cleanup_expired_sessions''),
      (2171, ''return_session_to_pool''), (2094, ''get_or_create_session''),
      (2005, ''handle_resource_exhaustion''), (1934, ''detect_malformed_message''),
      (1917, ''cleanup_expired_block_transfers''), (1852, ''split_payload_into_blocks''),
      (1846, ''should_use_block_transfer'')] \<and>
   remove_all file_one_duplicate [(2668, ''setup_multicast_listener'')] = file_one_duplicate \<and>
   find_end file_one_duplicate 2334 = 2335 \<and>
   remove_all file_one_duplicate
     ([(2668, ''setup_multicast_listener'')] @ [(2334, ''cleanup_serialization_cache'')]) =
     replicate 2333 ''x\<newline>'' @ [''template<\<newline>'', ''}\<newline>'']"
proof -
  have split: "sort_reverse duplicates_to_remove =
     [(2668, ''setup_multicast_listener'')] @ (2334, ''cleanup_serialization_cache'') #
     [(2310, ''cache_serialization''), (2282, ''get_cached_serialization''),
      (2266, ''allocate_from_pool''), (2202, ''cleanup_expired_sessions''),
      (2171, ''return_session_to_pool''), (2094, ''get_or_create_session''),
      (2005, ''handle_resource_exhaustion''), (1934, ''detect_malformed_message''),
      (1917, ''cleanup_expired_block_transfers''), (1852, ''split_payload_into_blocks''),
      (1846, ''should_use_block_transfer'')]"
    by (simp add: sort_reverse_def duplicates_to_remove_def)
  have cur: "remove_all file_one_duplicate [(2668, ''setup_multicast_listener'')] =
             file_one_duplicate"
    by (simp add: remove_all_def remove_one_def find_end_def del_slice_def
        file_one_duplicate_def)
  have e: "find_end file_one_duplicate 2334 = 2335"
    by (simp add: find_end_def file_one_duplicate_def line_eval)
  from remove_duplicates_regions [OF split, of file_one_duplicate]
  have "remove_all file_one_duplicate
          ([(2668, ''setup_multicast_listener'')] @ [(2334, ''cleanup_serialization_cache'')]) =
        take 2333 file_one_duplicate @ drop 2335 file_one_duplicate"
    by (simp add: cur e)
  then have "remove_all file_one_duplicate
          ([(2668, ''setup_multicast_listener'')] @ [(2334, ''cleanup_serialization_cache'')]) =
        replicate 2333 ''x\<newline>'' @ [''template<\<newline>'', ''}\<newline>'']"
    by (simp add: file_one_duplicate_def)
  with split cur e show ?thesis by blast
qed

text \<open>
  C10, as stated, fails: a line counts as the end of the range when it begins with
  \<open>template<\<close> after stripping, whatever its indentation. In the file below the first
  deletion (start line 2668) stops before line 2669, which does not begin with
  \<open>template<\<close> or \<open>} // namespace\<close>; the next line that does is line 2671, and the
  deletion does not reach it.
\<close>

theorem remove_duplicates_stops_at_indented_line:
  "hd (sort_reverse duplicates_to_remove) = (2668, ''setup_multicast_listener'') \<and>
   remove_one file_indented_template (2668, ''setup_multicast_listener'') =
     replicate 2667 ''x\<newline>'' @ [''    template<typename T>\<newline>'', ''y\<newline>'', ''template<\<newline>''] \<and>
   \<not> startswith (file_indented_template ! 2668) ''template<'' \<and>
   \<not> startswith (file_indented_template ! 2668) ''} // namespace'' \<and>
   \<not> startswith (file_indented_template ! 2669) ''template<'' \<and>
   \<not> startswith (file_indented_template ! 2669) ''} // namespace'' \<and>
   startswith (file_indented_template ! 2670) ''template<'' \<and>
   remove_one file_indented_template (2668, ''setup_multicast_listener'') \<noteq>
     take 2667 file_indented_template @ drop 2670 file_indented_template"
proof -
  have a: "hd (sort_reverse duplicates_to_remove) = (2668, ''setup_multicast_listener'')"
    by (simp add: sort_reverse_def duplicates_to_remove_def)
  have b: "remove_one file_indented_template (2668, ''setup_multicast_listener'') =
     replicate 2667 ''x\<newline>'' @ [''    template<typename T>\<newline>'', ''y\<newline>'', ''template<\<newline>'']"
    by (simp add: remove_one_def find_end_def del_slice_def file_indented_template_def line_eval)
  have c: "\<not> startswith (file_indented_template ! 2668) ''template<'' \<and>
   \<not> startswith (file_indented_template ! 2668) ''} // namespace'' \<and>
   \<not> startswith (file_indented_template ! 2669) ''template<'' \<and>
   \<not> startswith (file_indented_template ! 2669) ''} // namespace'' \<and>
   startswith (file_indented_template ! 2670) ''template<''"
    by (simp add: file_indented_template_def nth_append startswith_def)
  have d: "take 2667 file_indented_template @ drop 2670 file_indented_template =
           replicate 2667 ''x\<newline>'' @ [''template<\<newline>'']"
    by (simp add: file_indented_template_def)
  have "replicate 2667 ''x\<newline>'' @ [''    template<typename T>\<newline>'', ''y\<newline>'', ''template<\<newline>''] \<noteq>
        replicate 2667 ''x\<newline>'' @ [''template<\<newline>'']"
    by simp
  with a b c d show ?thesis by simp
qed

subsection \<open>The files that the scripts write\<close>

lemma rewrite_frame:
  "(rewrite path f w = (w, Some (FileNotFoundError path)) \<and> path \<notin> fst ` set (files w)) \<or>
   (snd (rewrite path f w) = None \<and> path \<in> fst ` set (files w) \<and>
    opened_w (fst (rewrite path f w)) = opened_w w @ [path] \<and>
    fst ` set (files (fst (rewrite path f w))) = fst ` set (files w) \<and>
    (\<forall>q. q \<noteq> path \<longrightarrow> map_of (files (fst (rewrite path f w))) q = map_of (files w) q))"
proof (cases "map_of (files w) path")
  case None
  then have "path \<notin> fst ` set (files w)" by (simp add: map_of_eq_None_iff)
  with None show ?thesis by (simp add: rewrite_def read_text_def)
next
  case (Some content)
  then have "(path, content) \<in> set (files w)" by (rule map_of_SomeD)
  then have "path \<in> fst ` set (files w)" by force
  with Some show ?thesis
    by (auto simp: rewrite_def read_text_def write_text_def AList.update_conv' AList.dom_update)
qed

lemma rewrite_writes_header: "writes_header p (rewrite p f) w"
  using rewrite_frame [of p f w] unfolding writes_header_def by blast

lemma fix_each_test_frame:
  "set fs \<subseteq> fst ` set (files w) \<Longrightarrow>
     snd (fix_each_test fs w) = None \<and>
     opened_w (fst (fix_each_test fs w)) = opened_w w @ fs \<and>
     fst ` set (files (fst (fix_each_test fs w))) = fst ` set (files w) \<and>
     (\<forall>q. q \<notin> set fs \<longrightarrow> map_of (files (fst (fix_each_test fs w))) q = map_of (files w) q)"
proof (induction fs arbitrary: w)
  case Nil
  show ?case by simp
next
  case (Cons p fs)
  let ?r = "rewrite p completion_test_text w"
  from Cons.prems have "p \<in> fst ` set (files w)" by simp
  with rewrite_frame [of p completion_test_text w] have
    ok: "snd ?r = None" and
    op: "opened_w (fst ?r) = opened_w w @ [p]" and
    keys: "fst ` set (files (fst ?r)) = fst ` set (files w)" and
    same: "\<forall>q. q \<noteq> p \<longrightarrow> map_of (files (fst ?r)) q = map_of (files w) q"
    by auto
  from ok have step: "fix_each_test (p # fs) w = fix_each_test fs (fst ?r)"
    by (cases ?r) simp
  from Cons.prems keys have "set fs \<subseteq> fst ` set (files (fst ?r))" by simp
  from Cons.IH [OF this] step op same keys show ?case by simp
qed

lemma wild_prefix:
  "wild (p @ q) s \<Longrightarrow> CHR ''*'' \<notin> set p \<Longrightarrow> take (length p) s = p"
proof (induction p arbitrary: s)
  case Nil
  show ?case by simp
next
  case (Cons c p)
  then show ?case by (cases s) (auto split: if_splits)
qed

lemma test_files_under_tests:
  assumes "q \<in> set (test_files w)"
  shows "startswith q ''tests/raft_'' \<and> q \<in> fst ` set (files w)"
proof -
  from assms obtain pat where pat: "pat \<in> set test_patterns" and m: "wild pat q"
    and ex: "q \<in> set (map fst (files w))"
    by (auto simp: test_files_def glob_def)
  from pat obtain rest where "pat = ''tests/raft_'' @ rest"
    by (auto simp: test_patterns_def)
  with m have "wild (''tests/raft_'' @ rest) q" by simp
  from wild_prefix [OF this] have "take (length ''tests/raft_'') q = ''tests/raft_''" by simp
  with ex show ?thesis by (simp add: startswith_def)
qed

text \<open>
  C1, as the code has it, for every run of each of the ten scripts. Eight scripts rewrite
  include/raft/raft.hpp and remove\_duplicates.py rewrites
  include/raft/coap\_transport\_impl.hpp, in the sense of \<open>writes_header\<close>: the run opens
  for writing that header and no other file, or, when the header is missing, raises
  before opening anything for writing; it creates no file and changes no other file.
  fix\_completion\_tests.py never raises and opens for writing exactly the files that its
  six glob patterns matched, in that order: existing files whose paths start with
  \<open>tests/raft_\<close>, neither of the two headers among them; it creates no file and changes
  no file that no pattern matched.
\<close>

theorem scripts_write_frame:
  "scripts =
     [fix_all_raft_methods, fix_raft_method_templates, fix_template_declarations,
      fix_raft_comprehensive, fix_raft_template_issues, fix_raft_namespaces,
      remove_duplicates, fix_raft_complete, fix_all_template_declarations,
      fix_completion_tests] \<and>
   writes_header raft_hpp fix_all_raft_methods w \<and>
   writes_header raft_hpp fix_raft_method_templates w \<and>
   writes_header raft_hpp fix_template_declarations w \<and>
   writes_header raft_hpp fix_raft_comprehensive w \<and>
   writes_header raft_hpp fix_raft_template_issues w \<and>
   writes_header raft_hpp fix_raft_namespaces w \<and>
   writes_header coap_transport_impl_hpp remove_duplicates w \<and>
   writes_header raft_hpp fix_raft_complete w \<and>
   writes_header raft_hpp fix_all_template_declarations w \<and>
   snd (fix_completion_tests w) = None \<and>
   opened_w (fst (fix_completion_tests w)) = opened_w w @ test_files w \<and>
   fst ` set (files (fst (fix_completion_tests w))) = fst ` set (files w) \<and>
   (\<forall>q. q \<notin> set (test_files w) \<longrightarrow>
      map_of (files (fst (fix_completion_tests w))) q = map_of (files w) q) \<and>
   (\<forall>q \<in> set (test_files w). startswith q ''tests/raft_'' \<and> q \<in> fst ` set (files w)) \<and>
   raft_hpp \<notin> set (test_files w) \<and>
   coap_transport_impl_hpp \<notin> set (test_files w)"
proof -
  have sub: "set (test_files w) \<subseteq> fst ` set (files w)"
    using test_files_under_tests [of _ w] by blast
  note tests = fix_each_test_frame [OF sub]
  have under: "\<forall>q \<in> set (test_files w). startswith q ''tests/raft_'' \<and> q \<in> fst ` set (files w)"
    using test_files_under_tests [of _ w] by blast
  have "\<not> startswith raft_hpp ''tests/raft_''"
    by (simp add: raft_hpp_def startswith_def)
  with under have no_raft: "raft_hpp \<notin> set (test_files w)" by blast
  have "\<not> startswith coap_transport_impl_hpp ''tests/raft_''"
    by (simp add: coap_transport_impl_hpp_def startswith_def)
  with under have no_coap: "coap_transport_impl_hpp \<notin> set (test_files w)" by blast
  have s: "scripts =
     [fix_all_raft_methods, fix_raft_method_templates, fix_template_declarations,
      fix_raft_comprehensive, fix_raft_template_issues, fix_raft_namespaces,
      remove_duplicates, fix_raft_complete, fix_all_template_declarations,
      fix_completion_tests]"
    by (rule scripts_def)
  have h1: "writes_header raft_hpp fix_all_raft_methods w"
    unfolding fix_all_raft_methods_def by (rule rewrite_writes_header)
  have h2: "writes_header raft_hpp fix_raft_method_templates w"
    unfolding fix_raft_method_templates_def by (rule rewrite_writes_header)
  have h3: "writes_header raft_hpp fix_template_declarations w"
    unfolding fix_template_declarations_def by (rule rewrite_writes_header)
  have h4: "writes_header raft_hpp fix_raft_comprehensive w"
    unfolding fix_raft_comprehensive_def by (rule rewrite_writes_header)
  have h5: "writes_header raft_hpp fix_raft_template_issues w"
    unfolding fix_raft_template_issues_def by (rule rewrite_writes_header)
  have h6: "writes_header raft_hpp fix_raft_namespaces w"
    unfolding fix_raft_namespaces_def by (rule rewrite_writes_header)
  have h7: "writes_header coap_transport_impl_hpp remove_duplicates w"
    unfolding remove_duplicates_def by (rule rewrite_writes_header)
  have h8: "writes_header raft_hpp fix_raft_complete w"
    unfolding fix_raft_complete_def by (rule rewrite_writes_header)
  have h9: "writes_header raft_hpp fix_all_template_declarations w"
    unfolding fix_all_template_declarations_def by (rule rewrite_writes_header)
  have t1: "snd (fix_completion_tests w) = None"
    and t2: "opened_w (fst (fix_completion_tests w)) = opened_w w @ test_files w"
    and t3: "fst ` set (files (fst (fix_completion_tests w))) = fst ` set (files w)"
    and t4: "\<forall>q. q \<notin> set (test_files w) \<longrightarrow>
      map_of (files (fst (fix_completion_tests w))) q = map_of (files w) q"
    unfolding fix_completion_tests_def using tests by blast+
  show ?thesis
    by (intro conjI s h1 h2 h3 h4 h5 h6 h7 h8 h9 t1 t2 t3 t4 under no_raft no_coap)
qed

theorem scripts_write_frame_witness:
  "remove_duplicates world_plain_test =
     (world_plain_test, Some (FileNotFoundError coap_transport_impl_hpp)) \<and>
   snd (fix_all_raft_methods world_plain_test) = None \<and>
   opened_w (fst (fix_all_raft_methods world_plain_test)) = [raft_hpp] \<and>
   map_of (files (fst (fix_all_raft_methods world_plain_test))) ''tests/other_test.cpp'' =
     Some ''z'' \<and>
   test_files world_plain_test = [''tests/raft_b_read_c_property_test.cpp''] \<and>
   opened_w (fst (fix_completion_tests world_plain_test)) =
     [''tests/raft_b_read_c_property_test.cpp''] \<and>
   map_of (files (fst (fix_completion_tests world_plain_test))) raft_hpp = Some ''x''"
proof -
  note frame = scripts_write_frame [of world_plain_test]
  have keys: "fst ` set (files world_plain_test) =
      {raft_hpp, ''tests/raft_b_read_c_property_test.cpp'', ''tests/other_test.cpp''}"
    by (auto simp: world_plain_test_def raft_hpp_def)
  have no_coap: "coap_transport_impl_hpp \<notin> fst ` set (files world_plain_test)"
    unfolding keys by (simp add: coap_transport_impl_hpp_def raft_hpp_def)
  have has_raft: "raft_hpp \<in> fst ` set (files world_plain_test)"
    unfolding keys by simp
  have tf: "test_files world_plain_test = [''tests/raft_b_read_c_property_test.cpp'']"
    by (simp add: test_files_def glob_def test_patterns_def world_plain_test_def)
  have other: "''tests/other_test.cpp'' \<noteq> raft_hpp" by (simp add: raft_hpp_def)
  have start: "opened_w world_plain_test = []"
    and z: "map_of (files world_plain_test) ''tests/other_test.cpp'' = Some ''z''"
    and x: "map_of (files world_plain_test) raft_hpp = Some ''x''"
    by (simp_all add: world_plain_test_def raft_hpp_def)
  have rd: "writes_header coap_transport_impl_hpp remove_duplicates world_plain_test"
    using frame by (elim conjE)
  have rm: "writes_header raft_hpp fix_all_raft_methods world_plain_test"
    using frame by (elim conjE)
  from rd no_coap have a: "remove_duplicates world_plain_test =
     (world_plain_test, Some (FileNotFoundError coap_transport_impl_hpp))"
    unfolding writes_header_def by blast
  from rm has_raft have b: "snd (fix_all_raft_methods world_plain_test) = None"
    and c: "opened_w (fst (fix_all_raft_methods world_plain_test)) = opened_w world_plain_test @ [raft_hpp]"
    and d: "\<forall>q. q \<noteq> raft_hpp \<longrightarrow> map_of (files (fst (fix_all_raft_methods world_plain_test))) q =
              map_of (files world_plain_test) q"
    unfolding writes_header_def by blast+
  have e: "opened_w (fst (fix_completion_tests world_plain_test)) =
       opened_w world_plain_test @ test_files world_plain_test"
    using frame by (elim conjE)
  have f: "\<forall>q. q \<notin> set (test_files world_plain_test) \<longrightarrow>
       map_of (files (fst (fix_completion_tests world_plain_test))) q = map_of (files world_plain_test) q"
    using frame by (elim conjE)
  have g: "raft_hpp \<notin> set (test_files world_plain_test)"
    using frame by (elim conjE)
  from a b c d e f g tf other start z x show ?thesis by simp
qed

text \<open>
  C1, as stated, fails: fix\_completion\_tests.py opens a test file for writing and changes
  it, and that file is neither of the two headers.
\<close>

theorem fix_completion_tests_writes_test_file:
  "fix_completion_tests \<in> set scripts \<and>
   fix_completion_tests world_with_test =
     (\<lparr>files = [(''include/raft/raft.hpp'', ''x''),
                (''tests/raft_a_completion_property_test.cpp'',
                 ''kythira::NetworkSimulator<std::uint64_t, std::uint16_t, kythira::Future<network_simulator::Message<std::uint64_t, std::uint16_t>>> s;'')],
       opened_w = [''tests/raft_a_completion_property_test.cpp'']\<rparr>, None) \<and>
   ''tests/raft_a_completion_property_test.cpp'' \<noteq> raft_hpp \<and>
   ''tests/raft_a_completion_property_test.cpp'' \<noteq> coap_transport_impl_hpp"
proof -
  have tf: "test_files world_with_test = [''tests/raft_a_completion_property_test.cpp'']"
    by (simp add: test_files_def glob_def test_patterns_def world_with_test_def)
  have conv: "completion_test_text ''network_simulator::NetworkSimulator<std::uint64_t, std::uint16_t> s;''
     = ''kythira::NetworkSimulator<std::uint64_t, std::uint16_t, kythira::Future<network_simulator::Message<std::uint64_t, std::uint16_t>>> s;''"
    by (simp add: completion_test_text_def serializer_args_def re_eval)
  have run: "fix_completion_tests world_with_test =
     (\<lparr>files = [(''include/raft/raft.hpp'', ''x''),
                (''tests/raft_a_completion_property_test.cpp'',
                 ''kythira::NetworkSimulator<std::uint64_t, std::uint16_t, kythira::Future<network_simulator::Message<std::uint64_t, std::uint16_t>>> s;'')],
       opened_w = [''tests/raft_a_completion_property_test.cpp'']\<rparr>, None)"
    unfolding fix_completion_tests_def tf
    by (simp add: rewrite_def read_text_def write_text_def world_with_test_def conv)
  then show ?thesis
    by (simp add: scripts_def raft_hpp_def coap_transport_impl_hpp_def)
qed

subsection \<open>Block transfer: split and reassembly\<close>

lemma length_write_at: "length (write_at off d buf) = max (length buf) (off + length d)"
  by (auto simp: write_at_def Let_def max_def min_def)

lemma nth_write_at_in:
  "off \<le> i \<Longrightarrow> i < off + length d \<Longrightarrow> write_at off d buf ! i = d ! (i - off)"
  by (auto simp: write_at_def Let_def nth_append min_def)

lemma nth_write_at_out:
  "i < length buf \<Longrightarrow> i < off \<or> off + length d \<le> i \<Longrightarrow> write_at off d buf ! i = buf ! i"
  by (auto simp: write_at_def Let_def nth_append min_def)


lemma nat_eq_by_less: "(\<And>k::nat. k < a \<longleftrightarrow> k < b) \<Longrightarrow> a = b"
  by (meson less_irrefl_nat linorder_neqE_nat)

lemma block_count_iff:
  assumes "0 < bs"
  shows "k < block_count bs p \<longleftrightarrow> k * bs < length p \<or> k = 0"
proof (cases "length p = 0")
  case True
  then show ?thesis by (auto simp: block_count_def)
next
  case False
  have "k < (length p + bs - 1) div bs \<longleftrightarrow> Suc k \<le> (length p + bs - 1) div bs" by auto
  also have "\<dots> \<longleftrightarrow> Suc k * bs \<le> length p + bs - 1"
    using assms by (simp only: less_eq_div_iff_mult_less_eq)
  also have "\<dots> \<longleftrightarrow> k * bs < length p" using assms False by auto
  finally show ?thesis using False by (auto simp: block_count_def)
qed

lemma block_count_pos: "0 < bs \<Longrightarrow> 0 < block_count bs p"
  by (simp add: block_count_iff)

lemma split_from_map:
  "0 < bs \<Longrightarrow> split_from bs n p = map (nth_block bs p n) [0..<block_count bs p]"
proof (induction bs n p rule: split_from.induct)
  case (1 bs n p)
  show ?case
  proof (cases "length p \<le> bs")
    case True
    have "k < block_count bs p \<longleftrightarrow> k < 1" for k
    proof (cases k)
      case 0
      with 1(2) show ?thesis by (simp add: block_count_pos)
    next
      case (Suc k')
      with True have "\<not> k * bs < length p" by simp
      with Suc 1(2) show ?thesis by (simp add: block_count_iff)
    qed
    then have "block_count bs p = 1" by (rule nat_eq_by_less)
    moreover from True have "nth_block bs p n 0 = \<lparr>seq = n, more_flag = False, data = p\<rparr>"
      by (simp add: nth_block_def)
    ultimately show ?thesis using True by (subst split_from.simps) simp
  next
    case False
    with 1(2) have ih: "split_from bs (Suc n) (drop bs p) =
        map (nth_block bs (drop bs p) (Suc n)) [0..<block_count bs (drop bs p)]"
      by (intro 1(1)) simp_all
    have shift: "nth_block bs (drop bs p) (Suc n) k = nth_block bs p n (Suc k)" for k
      using False by (auto simp: nth_block_def add.commute)
    have "k < block_count bs p \<longleftrightarrow> k < Suc (block_count bs (drop bs p))" for k
    proof (cases k)
      case 0
      with 1(2) show ?thesis by (simp add: block_count_pos)
    next
      case (Suc k')
      have "Suc k' * bs < length p \<longleftrightarrow> k' * bs < length p - bs \<or> k' = 0"
        using False by (cases k') auto
      with Suc 1(2) show ?thesis by (simp add: block_count_iff)
    qed
    then have count: "block_count bs p = Suc (block_count bs (drop bs p))"
      by (rule nat_eq_by_less)
    have hd: "nth_block bs p n 0 = \<lparr>seq = n, more_flag = True, data = take bs p\<rparr>"
      using False by (simp add: nth_block_def)
    have "map (nth_block bs p n) [0..<block_count bs p] =
          nth_block bs p n 0 # map (\<lambda>k. nth_block bs p n (Suc k)) [0..<block_count bs (drop bs p)]"
      unfolding count by (rule map_upt_Suc)
    also have "\<dots> = \<lparr>seq = n, more_flag = True, data = take bs p\<rparr> #
          split_from bs (Suc n) (drop bs p)"
      unfolding ih hd by (simp add: shift)
    also have "\<dots> = split_from bs n p"
      using False 1(2) by (subst (2) split_from.simps) simp
    finally show ?thesis by simp
  qed
qed


lemma concat_split_from: "concat (map data (split_from bs n p)) = p"
proof (induction bs n p rule: split_from.induct)
  case (1 bs n p)
  show ?case
  proof (cases "bs = 0 \<or> length p \<le> bs")
    case True
    then show ?thesis by (subst split_from.simps) simp
  next
    case False
    from 1 [OF False] False show ?thesis by (subst split_from.simps) simp
  qed
qed

lemma transfer_inv_new: "transfer_inv bs p {} (new_transfer bs)"
  by (simp add: transfer_inv_def new_transfer_def)

lemma transfer_inv_step:
  assumes bs: "0 < bs" and inv: "transfer_inv bs p K st" and k: "k < block_count bs p"
  shows "transfer_inv bs p (insert k K) (receive_block st (nth_block bs p 0 k))"
proof (cases "k \<in> K")
  case True
  then have "insert k K = K" by auto
  moreover from True inv have "receive_block st (nth_block bs p 0 k) = st"
    by (simp add: receive_block_def nth_block_def transfer_inv_def)
  ultimately show ?thesis using inv by simp
next
  case False
  let ?d = "take bs (drop (k * bs) p)"
  let ?buf = "write_at (k * bs) ?d (buffer st)"
  from inv have size: "block_size st = bs" and rcv: "received st = K"
    and sub: "K \<subseteq> {0..<block_count bs p}"
    and old: "\<And>k' i. k' \<in> K \<Longrightarrow> k' * bs \<le> i \<Longrightarrow> i < Suc k' * bs \<Longrightarrow> i < length p \<Longrightarrow>
                i < length (buffer st) \<and> buffer st ! i = p ! i"
    and tot: "total_size st =
                (if \<exists>k \<in> K. \<not> Suc k < block_count bs p then Some (length p) else None)"
    by (simp_all add: transfer_inv_def)
  from k bs have start: "k * bs < length p \<or> k = 0" by (simp add: block_count_iff)
  have len_d: "length ?d = min bs (length p - k * bs)" by simp
  have flag: "more_flag (nth_block bs p 0 k) \<longleftrightarrow> Suc k < block_count bs p"
    using bs by (simp add: nth_block_def block_count_iff)
  have st': "receive_block st (nth_block bs p 0 k) =
      st\<lparr>received := insert k K, buffer := ?buf,
         total_size := (if Suc k < block_count bs p then total_size st
                        else Some (k * bs + length ?d))\<rparr>"
    using False rcv size flag by (simp add: receive_block_def nth_block_def)
  have bytes: "i < length ?buf \<and> ?buf ! i = p ! i"
    if k': "k' \<in> insert k K" and lo: "k' * bs \<le> i" and hi: "i < Suc k' * bs" and ip: "i < length p"
    for k' i
  proof (cases "k' = k")
    case True
    with lo hi ip have inside: "k * bs \<le> i" "i < k * bs + length ?d" by auto
    then have "?buf ! i = ?d ! (i - k * bs)" by (rule nth_write_at_in)
    also have "\<dots> = p ! i" using inside by simp
    finally have "?buf ! i = p ! i" .
    moreover from inside have "i < length ?buf" by (simp add: length_write_at)
    ultimately show ?thesis by simp
  next
    case neq: False
    with k' have in_K: "k' \<in> K" by simp
    from old [OF in_K lo hi ip] have ob: "i < length (buffer st)" "buffer st ! i = p ! i"
      by simp_all
    have "i < k * bs \<or> k * bs + length ?d \<le> i"
    proof (cases "k' < k")
      case True
      then have "Suc k' * bs \<le> k * bs" by (intro mult_le_mono1) simp
      with hi show ?thesis by simp
    next
      case False
      with neq have "Suc k * bs \<le> k' * bs" by (intro mult_le_mono1) simp
      with lo show ?thesis by simp
    qed
    with ob(1) have "?buf ! i = buffer st ! i" by (rule nth_write_at_out)
    moreover from ob(1) have "i < length ?buf" by (simp add: length_write_at)
    ultimately show ?thesis using ob(2) by simp
  qed
  have total: "(if Suc k < block_count bs p then total_size st else Some (k * bs + length ?d)) =
      (if \<exists>k' \<in> insert k K. \<not> Suc k' < block_count bs p then Some (length p) else None)"
  proof (cases "Suc k < block_count bs p")
    case True
    with tot show ?thesis by simp
  next
    case last: False
    with bs have "\<not> Suc k * bs < length p" by (simp add: block_count_iff)
    with start have "k * bs + length ?d = length p" by auto
    with last show ?thesis by auto
  qed
  from sub k have "insert k K \<subseteq> {0..<block_count bs p}" by simp
  with size bytes total show ?thesis
    unfolding st' transfer_inv_def by simp
qed

lemma transfer_inv_fold:
  assumes bs: "0 < bs"
  shows "transfer_inv bs p K st \<Longrightarrow> set xs \<subseteq> set (split_payload_into_blocks bs p) \<Longrightarrow>
         transfer_inv bs p (K \<union> seq ` set xs) (foldl receive_block st xs)"
proof (induction xs arbitrary: K st)
  case Nil
  then show ?case by simp
next
  case (Cons x xs)
  from Cons.prems(2) bs obtain k where k: "k < block_count bs p" and x: "x = nth_block bs p 0 k"
    by (auto simp: split_payload_into_blocks_def split_from_map)
  from transfer_inv_step [OF bs Cons.prems(1) k]
  have "transfer_inv bs p (insert k K) (receive_block st x)" by (simp add: x)
  moreover from Cons.prems(2) have "set xs \<subseteq> set (split_payload_into_blocks bs p)" by simp
  ultimately have "transfer_inv bs p (insert k K \<union> seq ` set xs) (foldl receive_block (receive_block st x) xs)"
    by (rule Cons.IH)
  moreover have "seq x = k" by (simp add: x nth_block_def)
  ultimately show ?case by simp
qed

lemma transfer_inv_complete:
  assumes bs: "0 < bs" and inv: "transfer_inv bs p {0..<block_count bs p} st"
  shows "reassembled st = Some p"
proof -
  let ?c = "block_count bs p"
  from inv have size: "block_size st = bs" and rcv: "received st = {0..<?c}"
    and got: "\<And>k i. k < ?c \<Longrightarrow> k * bs \<le> i \<Longrightarrow> i < Suc k * bs \<Longrightarrow> i < length p \<Longrightarrow>
                i < length (buffer st) \<and> buffer st ! i = p ! i"
    and tot: "total_size st =
                (if \<exists>k \<in> {0..<?c}. \<not> Suc k < ?c then Some (length p) else None)"
    by (simp_all add: transfer_inv_def)
  from block_count_pos [OF bs, of p] have "?c - 1 \<in> {0..<?c}" "\<not> Suc (?c - 1) < ?c" by simp_all
  then have "\<exists>k \<in> {0..<?c}. \<not> Suc k < ?c" by blast
  with tot have total: "total_size st = Some (length p)" by simp
  have cover: "i div bs < ?c \<and> i div bs * bs \<le> i \<and> i < Suc (i div bs) * bs" if "i < length p" for i
  proof -
    have a: "i div bs * bs \<le> i" by simp
    from a that have "i div bs * bs < length p" by (rule le_less_trans)
    with bs have "i div bs < ?c" by (simp add: block_count_iff)
    moreover from bs have "i < Suc (i div bs) * bs"
      using dividend_less_times_div [of bs i] by (simp add: mult.commute)
    ultimately show ?thesis using a by simp
  qed
  have byte: "i < length (buffer st) \<and> buffer st ! i = p ! i" if "i < length p" for i
    using cover [OF that] got [of "i div bs" i] that by simp
  have all: "\<forall>i \<in> {0..<length p}. i div block_size st \<in> received st"
    using cover by (simp add: size rcv)
  have "length p \<le> length (buffer st)"
  proof (cases "length p")
    case 0
    then show ?thesis by simp
  next
    case (Suc m)
    then have "m < length p" by simp
    from byte [OF this] Suc show ?thesis by simp
  qed
  then have "take (length p) (buffer st) = p"
    by (intro nth_equalityI) (simp_all add: byte)
  with total all show ?thesis by (simp add: reassembled_def)
qed

text \<open>
  C2, on the model of the block transfer. For a positive block size, the blocks of a
  payload are numbered \<open>0, 1, ...\<close> in order, each has the more flag but the last, and
  together they hold the payload. When the arrivals are those blocks in any order, each at
  least once (\<open>set arrivals\<close> is the set of the blocks: a permutation with duplicates put
  in), the receiver reassembles the payload itself. A payload of 2048 bytes at a block
  size of 256 is split into exactly 8 blocks.
\<close>

theorem block_reassembly:
  assumes "0 < bs" and "set arrivals = set (split_payload_into_blocks bs payload)"
  shows "reassemble bs arrivals = Some payload \<and>
         map seq (split_payload_into_blocks bs payload) =
           [0..<length (split_payload_into_blocks bs payload)] \<and>
         (\<forall>b \<in> set (split_payload_into_blocks bs payload).
            more_flag b \<longleftrightarrow> Suc (seq b) < length (split_payload_into_blocks bs payload)) \<and>
         concat (map data (split_payload_into_blocks bs payload)) = payload \<and>
         (bs = 256 \<and> length payload = 2048 \<longrightarrow>
            length (split_payload_into_blocks bs payload) = 8)"
proof -
  let ?blocks = "split_payload_into_blocks bs payload"
  let ?c = "block_count bs payload"
  have blocks: "?blocks = map (nth_block bs payload 0) [0..<?c]"
    using assms(1) by (simp add: split_payload_into_blocks_def split_from_map)
  then have len: "length ?blocks = ?c" by simp
  have seqs: "map seq ?blocks = [0..<?c]"
    unfolding blocks by (simp add: nth_block_def comp_def map_idI)
  then have "seq ` set ?blocks = {0..<?c}" by (metis list.set_map set_upt)
  with assms(2) have all: "{} \<union> seq ` set arrivals = {0..<?c}" by simp
  from assms(2) have "set arrivals \<subseteq> set ?blocks" by simp
  from transfer_inv_fold [OF assms(1) transfer_inv_new this]
  have "transfer_inv bs payload {0..<?c} (foldl receive_block (new_transfer bs) arrivals)"
    unfolding all .
  from transfer_inv_complete [OF assms(1) this]
  have r: "reassemble bs arrivals = Some payload" by (simp add: reassemble_def)
  have flags: "\<forall>b \<in> set ?blocks. more_flag b \<longleftrightarrow> Suc (seq b) < length ?blocks"
    unfolding len using assms(1) by (auto simp: blocks nth_block_def block_count_iff)
  have eight: "bs = 256 \<and> length payload = 2048 \<longrightarrow> length ?blocks = 8"
    unfolding len by (simp add: block_count_def)
  have whole: "concat (map data ?blocks) = payload"
    by (simp add: split_payload_into_blocks_def concat_split_from)
  show ?thesis using r seqs len flags eight whole by simp
qed

theorem block_reassembly_witness:
  "(0::nat) < 256 \<and> length payload_2k = 2048 \<and>
   set (rev (split_payload_into_blocks 256 payload_2k) @ split_payload_into_blocks 256 payload_2k) =
     set (split_payload_into_blocks 256 payload_2k) \<and>
   reassemble 256
     (rev (split_payload_into_blocks 256 payload_2k) @ split_payload_into_blocks 256 payload_2k) =
     Some payload_2k \<and>
   length (split_payload_into_blocks 256 payload_2k) = 8"
proof -
  have pos: "(0::nat) < 256" by simp
  have len: "length payload_2k = 2048" by (simp add: payload_2k_def)
  have arr: "set (rev (split_payload_into_blocks 256 payload_2k) @
                  split_payload_into_blocks 256 payload_2k) =
             set (split_payload_into_blocks 256 payload_2k)"
    by simp
  from block_reassembly [OF pos arr] len pos arr show ?thesis by simp
qed

subsection \<open>Session pool: the bound\<close>








subsection \<open>Serialization cache: hits and eviction\<close>












end
